theory Spec2Isabelle
  imports Main "HOL-Library.AList"
begin

section \<open>JavaScript values\<close>

text \<open>
  A JavaScript number is modelled as an integer or \<open>NaN\<close>; fractional numbers and the
  infinities do not occur in the functions below. Strings are lists of 8-bit characters
  (the Latin-1 range of code units).
\<close>

datatype jsnum = NaN | Num int

datatype jsval = VUndefined | VNull | VNumber jsnum | VString string | VBool bool

datatype json =
    JNull
  | JBool bool
  | JNumber jsnum
  | JString string
  | JArray "json list"
  | JObject "(string \<times> json) list"

text \<open>Truthiness, as tested by \<open>!x\<close>, \<open>x &&\<close>, \<open>x ||\<close> and \<open>if (x)\<close>.\<close>

fun truthy_num :: "jsnum \<Rightarrow> bool" where
  "truthy_num NaN = False"
| "truthy_num (Num n) = (n \<noteq> 0)"

fun truthy :: "jsval \<Rightarrow> bool" where
  "truthy VUndefined = False"
| "truthy VNull = False"
| "truthy (VNumber n) = truthy_num n"
| "truthy (VString s) = (s \<noteq> [])"
| "truthy (VBool b) = b"

fun truthy_json :: "json \<Rightarrow> bool" where
  "truthy_json JNull = False"
| "truthy_json (JBool b) = b"
| "truthy_json (JNumber n) = truthy_num n"
| "truthy_json (JString s) = (s \<noteq> [])"
| "truthy_json (JArray xs) = True"
| "truthy_json (JObject kvs) = True"

text \<open>The nullish coalescing operator \<open>a ?? b\<close>.\<close>

fun coalesce :: "jsval \<Rightarrow> jsval \<Rightarrow> jsval" where
  "coalesce VUndefined b = b"
| "coalesce VNull b = b"
| "coalesce a b = a"

text \<open>The same operator on an optional field (\<open>None\<close> is \<open>undefined\<close>).\<close>

fun coalesce_opt :: "'a option \<Rightarrow> 'a option \<Rightarrow> 'a option" where
  "coalesce_opt None b = b"
| "coalesce_opt (Some a) b = Some a"

text \<open>Truthiness of an optional number and of an optional string (\<open>None\<close> is
  \<open>undefined\<close>).\<close>

definition truthy_status :: "jsnum option \<Rightarrow> bool" where
  "truthy_status a = (case a of None \<Rightarrow> False | Some n \<Rightarrow> truthy_num n)"

definition truthy_text :: "string option \<Rightarrow> bool" where
  "truthy_text a = (case a of None \<Rightarrow> False | Some t \<Rightarrow> t \<noteq> [])"

text \<open>Comparisons of a number with an integer constant; every comparison with \<open>NaN\<close> is false.\<close>

fun num_lt :: "jsnum \<Rightarrow> int \<Rightarrow> bool" where
  "num_lt NaN k = False"
| "num_lt (Num n) k = (n < k)"

fun num_gt :: "jsnum \<Rightarrow> int \<Rightarrow> bool" where
  "num_gt NaN k = False"
| "num_gt (Num n) k = (n > k)"

subsection \<open>Characters and strings\<close>

definition char_code :: "char \<Rightarrow> nat" where
  "char_code c = of_char c"

text \<open>White space as skipped by \<open>parseInt\<close> and removed by \<open>String.prototype.trim\<close>,
  within the 8-bit range: TAB, LF, VT, FF, CR, SPACE and NBSP.\<close>

definition js_whitespace :: "char \<Rightarrow> bool" where
  "js_whitespace c = (char_code c \<in> {9, 10, 11, 12, 13, 32, 160})"

definition is_digit :: "char \<Rightarrow> bool" where
  "is_digit c = (48 \<le> char_code c \<and> char_code c \<le> 57)"

definition digit_value :: "char \<Rightarrow> int" where
  "digit_value c = int (char_code c) - 48"

definition digits_value :: "string \<Rightarrow> int" where
  "digits_value ds = foldl (\<lambda>acc c. acc * 10 + digit_value c) 0 ds"

text \<open>The pieces of \<open>s\<close> between occurrences of \<open>sep\<close>; at least one piece.\<close>

fun split_on :: "char \<Rightarrow> string \<Rightarrow> string list" where
  "split_on sep [] = [[]]"
| "split_on sep (c # cs) =
     (if c = sep then [] # split_on sep cs
      else (case split_on sep cs of
              [] \<Rightarrow> [[c]]
            | l # ls \<Rightarrow> (c # l) # ls))"

text \<open>\<open>Number.parseInt(s, 10)\<close>: leading white space is skipped, an optional sign is read,
  then the longest run of decimal digits; the result is \<open>NaN\<close> when there is no digit.\<close>

definition parseInt10 :: "string \<Rightarrow> jsnum" where
  "parseInt10 s =
     (let t = dropWhile js_whitespace s;
          neg = (case t of [] \<Rightarrow> False | c # _ \<Rightarrow> c = CHR ''-'');
          u = (case t of [] \<Rightarrow> []
                | c # r \<Rightarrow> if c = CHR ''-'' \<or> c = CHR ''+'' then r else t);
          ds = takeWhile is_digit u
      in if ds = [] then NaN
         else Num (if neg then - digits_value ds else digits_value ds))"

text \<open>\<open>ToNumber\<close> on the values that reach a numeric comparison.\<close>

fun to_number :: "jsval \<Rightarrow> jsnum" where
  "to_number (VNumber n) = n"
| "to_number (VBool b) = Num (if b then 1 else 0)"
| "to_number VNull = Num 0"
| "to_number VUndefined = NaN"
| "to_number (VString s) = parseInt10 s"

section \<open>Sanitizing status codes and status messages (utils/sanitize.ts)\<close>

text \<open>\<open>DISALLOWED_STATUS_CHARS = /[^\u0009 -~]/g\<close>: every character other than
  TAB and the visible ASCII range is removed.\<close>

definition allowed_status_char :: "char \<Rightarrow> bool" where
  "allowed_status_char c = (char_code c = 9 \<or> (32 \<le> char_code c \<and> char_code c \<le> 126))"

definition sanitizeStatusMessage :: "string \<Rightarrow> string" where
  "sanitizeStatusMessage statusMessage = filter allowed_status_char statusMessage"

text \<open>
  \<open>sanitizeStatusCode(statusCode?, defaultStatusCode = 200)\<close>. The second argument is
  optional: \<open>None\<close> is an omitted (or \<open>undefined\<close>) argument, for which the parameter
  default 200 applies. A string is parsed with \<open>Number.parseInt(statusCode, 10)\<close>.
\<close>

definition sanitizeStatusCode :: "jsval \<Rightarrow> jsnum option \<Rightarrow> jsnum" where
  "sanitizeStatusCode statusCode defaultStatusCode' =
     (let defaultStatusCode = (case defaultStatusCode' of None \<Rightarrow> Num 200 | Some d \<Rightarrow> d)
      in if \<not> truthy statusCode then defaultStatusCode
         else let n = (case statusCode of VString s \<Rightarrow> parseInt10 s | v \<Rightarrow> to_number v)
              in if num_lt n 100 \<or> num_gt n 999 then defaultStatusCode else n)"

section \<open>The error model (error.ts)\<close>

text \<open>
  The object a failure was caused by, as far as \<open>createError\<close> reads it: the four status
  fields and the two flags.
\<close>

record cause_obj =
  c_statusCode :: jsval
  c_status :: jsval
  c_statusMessage :: "string option"
  c_statusText :: "string option"
  c_fatal :: "bool option"
  c_unhandled :: "bool option"

text \<open>
  A plain input object of \<open>createError\<close> (\<open>Partial<H3Error> & {status?, statusText?}\<close>, or
  any thrown object). An absent field is \<open>None\<close> (or \<open>VUndefined\<close>). The status fields
  are inspected dynamically by the code (\<open>typeof statusCode === "number"\<close>), so they carry
  a \<open>jsval\<close>.
\<close>

record error_input =
  in_message :: "string option"
  in_statusMessage :: "string option"
  in_statusText :: "string option"
  in_statusCode :: jsval
  in_status :: jsval
  in_cause :: "cause_obj option"
  in_stack :: "string option"
  in_data :: "json option"
  in_fatal :: "bool option"
  in_unhandled :: "bool option"

datatype error_cause = CauseObject cause_obj | CauseInput error_input

text \<open>
  \<open>class H3Error extends Error\<close>, with the field initialisers \<open>statusCode = 500\<close>,
  \<open>fatal = false\<close>, \<open>unhandled = false\<close>. \<open>stack\<close> is the trace the engine attaches
  to a new \<open>Error\<close>, if any.
\<close>

record H3Error =
  message :: string
  statusCode :: jsnum
  fatal :: bool
  unhandled :: bool
  statusMessage :: "string option"
  data :: "json option"
  cause :: "error_cause option"
  stack :: "string option"

text \<open>\<open>new H3Error(message, {cause})\<close>; \<open>trace\<close> is the stack trace captured by the engine.\<close>

definition new_H3Error :: "string option \<Rightarrow> string \<Rightarrow> error_cause option \<Rightarrow> H3Error" where
  "new_H3Error trace msg cause' =
     \<lparr> message = msg, statusCode = Num 500, fatal = False, unhandled = False,
       statusMessage = None, data = None, cause = cause', stack = trace \<rparr>"

text \<open>The three kinds of argument \<open>createError\<close> tells apart: a string, a value whose
  constructor carries the \<open>__h3_error__\<close> marker (\<open>isError\<close>), and any other object.\<close>

datatype createError_input =
    InString string
  | InH3Error H3Error
  | InObject error_input

definition createError :: "string option \<Rightarrow> createError_input \<Rightarrow> H3Error" where
  "createError trace input =
     (case input of
        InString s \<Rightarrow> new_H3Error trace s None
      | InH3Error e \<Rightarrow> e
      | InObject inp \<Rightarrow>
          (let cause' = in_cause inp;
               err0 = new_H3Error trace
                        (case coalesce_opt (in_message inp) (in_statusMessage inp) of
                           None \<Rightarrow> [] | Some m \<Rightarrow> m)
                        (Some (case cause' of Some c \<Rightarrow> CauseObject c | None \<Rightarrow> CauseInput inp));
               err1 = (case in_stack inp of
                         Some st \<Rightarrow> err0\<lparr>stack := Some st\<rparr>
                       | None \<Rightarrow> err0);
               err2 = (case in_data inp of
                         Some d \<Rightarrow> if truthy_json d then err1\<lparr>data := Some d\<rparr> else err1
                       | None \<Rightarrow> err1);
               statusCode' =
                 coalesce (in_statusCode inp)
                   (coalesce (in_status inp)
                      (coalesce (case cause' of None \<Rightarrow> VUndefined | Some c \<Rightarrow> c_statusCode c)
                                (case cause' of None \<Rightarrow> VUndefined | Some c \<Rightarrow> c_status c)));
               err3 = (case statusCode' of
                         VNumber n \<Rightarrow> err2\<lparr>statusCode := sanitizeStatusCode (VNumber n) None\<rparr>
                       | _ \<Rightarrow> err2);
               statusMessage' =
                 coalesce_opt (in_statusMessage inp)
                   (coalesce_opt (in_statusText inp)
                      (coalesce_opt (case cause' of None \<Rightarrow> None | Some c \<Rightarrow> c_statusMessage c)
                                    (case cause' of None \<Rightarrow> None | Some c \<Rightarrow> c_statusText c)));
               err4 = (case statusMessage' of
                         Some m \<Rightarrow> if m \<noteq> [] then err3\<lparr>statusMessage := Some (sanitizeStatusMessage m)\<rparr>
                                   else err3
                       | None \<Rightarrow> err3);
               fatal' = coalesce_opt (in_fatal inp)
                          (case cause' of None \<Rightarrow> None | Some c \<Rightarrow> c_fatal c);
               err5 = (case fatal' of Some f \<Rightarrow> err4\<lparr>fatal := f\<rparr> | None \<Rightarrow> err4);
               unhandled' = coalesce_opt (in_unhandled inp)
                              (case cause' of None \<Rightarrow> None | Some c \<Rightarrow> c_unhandled c)
           in (case unhandled' of Some u \<Rightarrow> err5\<lparr>unhandled := u\<rparr> | None \<Rightarrow> err5)))"

text \<open>The empty object \<open>{}\<close>.\<close>

definition empty_input :: error_input where
  "empty_input =
     \<lparr> in_message = None, in_statusMessage = None, in_statusText = None,
       in_statusCode = VUndefined, in_status = VUndefined, in_cause = None,
       in_stack = None, in_data = None, in_fatal = None, in_unhandled = None \<rparr>"

section \<open>Response headers\<close>

definition ascii_lower :: "char \<Rightarrow> char" where
  "ascii_lower c = (if 65 \<le> char_code c \<and> char_code c \<le> 90 then char_of (char_code c + 32) else c)"

definition lower :: "string \<Rightarrow> string" where
  "lower s = map ascii_lower s"

text \<open>
  A \<open>Headers\<close> object of the platform: one entry per header name, names in lower case.
  \<open>set\<close> replaces the value of a name, \<open>append\<close> joins a repeated name with a comma,
  \<open>delete\<close> removes the name. Names and values are taken to be valid, so that no call
  throws.
\<close>

type_synonym headers = "(string \<times> string) list"

definition headers_get :: "headers \<Rightarrow> string \<Rightarrow> string option" where
  "headers_get h name = map_of h (lower name)"

definition headers_set :: "headers \<Rightarrow> string \<Rightarrow> string \<Rightarrow> headers" where
  "headers_set h name v = AList.update (lower name) v h"


definition headers_append :: "headers \<Rightarrow> string \<Rightarrow> string \<Rightarrow> headers" where
  "headers_append h name v =
     (case map_of h (lower name) of
        None \<Rightarrow> h @ [(lower name, v)]
      | Some old \<Rightarrow> AList.update (lower name) (old @ '', '' @ v) h)"

text \<open>\<open>new Headers(init)\<close> for a plain object \<open>init\<close>, whose entries are read in
  insertion order; \<open>new Headers(undefined)\<close> is empty.\<close>

definition new_Headers :: "(string \<times> string) list option \<Rightarrow> headers" where
  "new_Headers init =
     (case init of None \<Rightarrow> []
      | Some kvs \<Rightarrow> foldl (\<lambda>h (k, v). headers_append h k v) [] kvs)"

section \<open>The event and its response state (event.ts, types/event.ts)\<close>

text \<open>
  \<open>class WebEventResponse implements H3EventResponse\<close>. \<open>headersInit'\<close> is the plain
  object \<open>_headersInit\<close> (keys as written by the caller, in insertion order) and
  \<open>headers'\<close> the lazily created \<open>_headers\<close>; \<open>None\<close> is \<open>undefined\<close>.
\<close>

record H3EventResponse =
  status :: "jsnum option"
  statusText :: "string option"
  headersInit' :: "(string \<times> string) list option"
  headers' :: "headers option"

text \<open>The getter \<open>headers\<close>: creates \<open>_headers\<close> from \<open>_headersInit\<close> on first use.\<close>

definition get_headers :: "H3EventResponse \<Rightarrow> headers \<times> H3EventResponse" where
  "get_headers r =
     (case headers' r of
        Some h \<Rightarrow> (h, r)
      | None \<Rightarrow> (let h = new_Headers (headersInit' r) in (h, r\<lparr>headers' := Some h\<rparr>)))"

definition setHeader :: "H3EventResponse \<Rightarrow> string \<Rightarrow> string \<Rightarrow> H3EventResponse" where
  "setHeader r name v =
     (case headers' r of
        Some h \<Rightarrow> r\<lparr>headers' := Some (headers_set h name v)\<rparr>
      | None \<Rightarrow>
          (let init = (case headersInit' r of None \<Rightarrow> [] | Some kvs \<Rightarrow> kvs)
           in r\<lparr>headersInit' := Some (AList.update name v init)\<rparr>))"

text \<open>The response state of \<open>new WebEventResponse()\<close>.\<close>

definition new_WebEventResponse :: H3EventResponse where
  "new_WebEventResponse =
     \<lparr> status = None, statusText = None, headersInit' = None, headers' = None \<rparr>"

text \<open>
  The \<open>H3Event\<close> interface as the response layer reads it: the request method, the
  \<open>path\<close> facet (pathname and query string) and the mutable response state.
\<close>

record H3Event =
  request_method :: string
  path :: string
  response :: H3EventResponse

record H3Config =
  debug :: bool

section \<open>The pathname accessor (event.ts)\<close>

text \<open>The first index at which \<open>pat\<close> occurs in \<open>s\<close>.\<close>

fun index_of :: "string \<Rightarrow> string \<Rightarrow> nat option" where
  "index_of pat [] = (if pat = [] then Some 0 else None)"
| "index_of pat (c # cs) =
     (if take (length pat) (c # cs) = pat then Some 0 else map_option Suc (index_of pat cs))"

text \<open>\<open>s.indexOf(pat, position)\<close>: the position is clamped to the length of \<open>s\<close>; the
  result is \<open>-1\<close> when there is no occurrence at or after it.\<close>

definition indexOf :: "string \<Rightarrow> string \<Rightarrow> nat \<Rightarrow> int" where
  "indexOf s pat position =
     (let start = min position (length s)
      in case index_of pat (drop start s) of
           None \<Rightarrow> - 1
         | Some k \<Rightarrow> int (start + k))"

text \<open>\<open>s.slice(start, end)\<close> for non-negative indices; \<open>None\<close> is \<open>undefined\<close>.\<close>

definition slice :: "string \<Rightarrow> nat \<Rightarrow> nat option \<Rightarrow> string" where
  "slice s start end' =
     (case end' of
        None \<Rightarrow> drop start s
      | Some e \<Rightarrow> take (e - start) (drop start s))"

text \<open>
  The fast path of the \<open>pathname\<close> getter on the raw URL string: the sliced pathname and
  the index \<open>qIndex\<close> it caches, or \<open>None\<close> where the getter falls back to \<open>this.url\<close>.
\<close>

definition pathname_fast :: "string \<Rightarrow> (string \<times> int) option" where
  "pathname_fast url =
     (let protoIndex = indexOf url ''://'' 0
      in if protoIndex = - 1 then None
         else let pIndex = indexOf url ''/'' (nat (protoIndex + 4))
              in if pIndex = - 1 then None
                 else let qIndex = indexOf url ''?'' (nat pIndex)
                      in Some (slice url (nat pIndex)
                                 (if qIndex = - 1 then None else Some (nat qIndex)),
                               qIndex))"

text \<open>A parsed \<open>URL\<close> object, as far as the event reads it.\<close>

record URL =
  url_pathname :: string
  url_search :: string

text \<open>The caches of \<open>class H3WebEvent\<close> that the \<open>url\<close> and \<open>pathname\<close> getters use.\<close>

record H3WebEvent =
  request_url :: string
  cached_url :: "URL option"
  cached_pathname :: "string option"
  cached_urlqindex :: "int option"

text \<open>
  The getter \<open>url\<close>. The platform's \<open>new URL(s)\<close> is the parameter \<open>new_URL\<close>; it
  throws (\<open>Inl\<close>) or returns the parsed URL.
\<close>

definition get_url ::
  "(string \<Rightarrow> 'x + URL) \<Rightarrow> H3WebEvent \<Rightarrow> 'x + URL \<times> H3WebEvent" where
  "get_url new_URL ev =
     (case cached_url ev of
        Some u \<Rightarrow> Inr (u, ev)
      | None \<Rightarrow>
          (case new_URL (request_url ev) of
             Inl x \<Rightarrow> Inl x
           | Inr u \<Rightarrow> Inr (u, ev\<lparr>cached_url := Some u\<rparr>)))"

definition get_pathname ::
  "(string \<Rightarrow> 'x + URL) \<Rightarrow> H3WebEvent \<Rightarrow> 'x + string \<times> H3WebEvent" where
  "get_pathname new_URL ev =
     (case cached_url ev of
        Some u \<Rightarrow> Inr (url_pathname u, ev)
      | None \<Rightarrow>
          if \<not> truthy_text (cached_pathname ev)
          then (case pathname_fast (request_url ev) of
                  None \<Rightarrow>
                    (case get_url new_URL ev of
                       Inl x \<Rightarrow> Inl x
                     | Inr (u, ev') \<Rightarrow> Inr (url_pathname u, ev'))
                | Some (p, qIndex) \<Rightarrow>
                    Inr (p, ev\<lparr>cached_urlqindex := Some qIndex, cached_pathname := Some p\<rparr>))
          else Inr ((case cached_pathname ev of Some p \<Rightarrow> p | None \<Rightarrow> []), ev))"

section \<open>The platform's URL parser\<close>

text \<open>
  \<open>new URL(s).pathname\<close> is computed by the platform, not by this repository. The
  definitions of this section follow the URL Standard (basic URL parser without a base
  URL, URL path serializer) as far as the pathname depends on them: the scheme, the
  authority with its credentials, host and port, the \<open>file\<close> states with the Windows
  drive letter quirk, the path state with dot segments and percent-encoding. Two points are
  left to the platform: which hosts its host parser accepts, and whether \<open>^\<close> belongs to
  the path percent-encode set (the standard added it; implementations differ). A URL with
  an opaque path (a scheme that is not special and is not followed by a slash) is not
  modelled.
\<close>

record url_platform =
  host_parses :: "bool \<Rightarrow> string \<Rightarrow> bool"
  encodes_caret :: bool

datatype 'a outcome = Unmodelled | Throws | Returns 'a

definition ascii_alpha :: "char \<Rightarrow> bool" where
  "ascii_alpha c =
     ((65 \<le> char_code c \<and> char_code c \<le> 90) \<or> (97 \<le> char_code c \<and> char_code c \<le> 122))"

definition ascii_alphanumeric :: "char \<Rightarrow> bool" where
  "ascii_alphanumeric c = (ascii_alpha c \<or> is_digit c)"

text \<open>Leading and trailing C0 controls and spaces are stripped, then every tab and
  newline is removed.\<close>

definition c0_control_or_space :: "char \<Rightarrow> bool" where
  "c0_control_or_space c = (char_code c \<le> 32)"

definition ascii_tab_or_newline :: "char \<Rightarrow> bool" where
  "ascii_tab_or_newline c = (char_code c \<in> {9, 10, 13})"

definition url_preprocess :: "string \<Rightarrow> string" where
  "url_preprocess s =
     filter (\<lambda>c. \<not> ascii_tab_or_newline c)
       (rev (dropWhile c0_control_or_space (rev (dropWhile c0_control_or_space s))))"

text \<open>Scheme start state and scheme state: a letter, then letters, digits, \<open>+\<close>, \<open>-\<close>
  and \<open>.\<close>, up to a colon; the scheme is lower-cased. Anything else is a URL without a
  scheme, which fails without a base URL.\<close>

definition scheme_char :: "char \<Rightarrow> bool" where
  "scheme_char c = (ascii_alphanumeric c \<or> c = CHR ''+'' \<or> c = CHR ''-'' \<or> c = CHR ''.'')"

definition parse_scheme :: "string \<Rightarrow> (string \<times> string) option" where
  "parse_scheme s =
     (case s of
        [] \<Rightarrow> None
      | c # _ \<Rightarrow>
          if \<not> ascii_alpha c then None
          else (case dropWhile scheme_char s of
                  [] \<Rightarrow> None
                | d # rest \<Rightarrow>
                    if d = CHR '':'' then Some (lower (takeWhile scheme_char s), rest)
                    else None))"

definition special_schemes :: "string list" where
  "special_schemes = [''ftp'', ''file'', ''http'', ''https'', ''ws'', ''wss'']"

definition slash_or_backslash :: "char \<Rightarrow> bool" where
  "slash_or_backslash c = (c = CHR ''/'' \<or> c = CHR 0x5C)"

text \<open>A slash separates path segments; so does a backslash in a URL with a special
  scheme.\<close>

definition path_separator :: "bool \<Rightarrow> char \<Rightarrow> bool" where
  "path_separator special c = (c = CHR ''/'' \<or> (special \<and> c = CHR 0x5C))"

text \<open>Authority state, host state, port state and file host state all end at a path
  separator, \<open>?\<close> or \<open>#\<close> (or at the end of the input).\<close>

definition authority_end :: "bool \<Rightarrow> char \<Rightarrow> bool" where
  "authority_end special c = (path_separator special c \<or> c = CHR ''?'' \<or> c = CHR ''#'')"

text \<open>Authority state: the credentials end at the last \<open>@\<close>; the host and port are
  read from what follows it.\<close>

definition after_last_at :: "string \<Rightarrow> string" where
  "after_last_at a = rev (takeWhile (\<lambda>c. c \<noteq> CHR ''@'') (rev a))"

text \<open>Host state: the host ends at the first colon outside square brackets; the port, if
  any, is what follows that colon.\<close>

fun scan_host :: "string \<Rightarrow> bool \<Rightarrow> string \<Rightarrow> string \<times> string option" where
  "scan_host [] inside buffer = (buffer, None)"
| "scan_host (c # cs) inside buffer =
     (if c = CHR '':'' \<and> \<not> inside then (buffer, Some cs)
      else scan_host cs
             (if c = CHR ''['' then True else if c = CHR '']'' then False else inside)
             (buffer @ [c]))"

text \<open>
  Whether the authority, state by state, passes without failure: an \<open>@\<close> must be followed
  by a host; a special scheme and a port both need a host that is not empty; the host
  parser (called with \<open>isOpaque\<close> for a scheme that is not special) must accept the host;
  the port is made of digits and is at most 65535.
\<close>

definition authority_parses :: "url_platform \<Rightarrow> bool \<Rightarrow> string \<Rightarrow> bool" where
  "authority_parses P special a =
     (if CHR ''@'' \<in> set a \<and> after_last_at a = [] then False
      else (case scan_host (after_last_at a) False [] of
              (h, None) \<Rightarrow> (if special \<and> h = [] then False else host_parses P (\<not> special) h)
            | (h, Some port) \<Rightarrow>
                h \<noteq> [] \<and> host_parses P (\<not> special) h
                \<and> list_all is_digit port \<and> digits_value port \<le> 65535))"

text \<open>Windows drive letters: a letter followed by \<open>:\<close> or \<open>|\<close>; normalized when it is
  \<open>:\<close>.\<close>

definition windows_drive_letter :: "string \<Rightarrow> bool" where
  "windows_drive_letter b =
     (case b of [x, y] \<Rightarrow> ascii_alpha x \<and> (y = CHR '':'' \<or> y = CHR ''|'') | _ \<Rightarrow> False)"

definition normalized_windows_drive_letter :: "string \<Rightarrow> bool" where
  "normalized_windows_drive_letter b =
     (case b of [x, y] \<Rightarrow> ascii_alpha x \<and> y = CHR '':'' | _ \<Rightarrow> False)"

text \<open>The path percent-encode set: the C0 controls, space, \<open>"\<close>, \<open>#\<close>, \<open><\<close>, \<open>>\<close>,
  \<open>?\<close>, \<open>`\<close>, \<open>{\<close>, \<open>}\<close>, everything from DEL on, and \<open>^\<close> where the platform has
  it. A character is encoded as the bytes of its UTF-8 form.\<close>

definition path_percent_encode_set :: "bool \<Rightarrow> char \<Rightarrow> bool" where
  "path_percent_encode_set caret c =
     (char_code c \<le> 32 \<or> char_code c \<ge> 127
      \<or> char_code c \<in> {34, 35, 60, 62, 63, 96, 123, 125}
      \<or> (caret \<and> c = CHR ''^''))"

definition hex_digit :: "nat \<Rightarrow> char" where
  "hex_digit n = ''0123456789ABCDEF'' ! (n mod 16)"

definition percent_encode_byte :: "nat \<Rightarrow> string" where
  "percent_encode_byte b = [CHR ''%'', hex_digit (b div 16), hex_digit (b mod 16)]"

definition utf8_bytes :: "char \<Rightarrow> nat list" where
  "utf8_bytes c =
     (if char_code c < 128 then [char_code c]
      else [192 + char_code c div 64, 128 + char_code c mod 64])"

definition percent_encode_path :: "bool \<Rightarrow> char \<Rightarrow> string" where
  "percent_encode_path caret c =
     (if path_percent_encode_set caret c then concat (map percent_encode_byte (utf8_bytes c))
      else [c])"

definition single_dot_segment :: "string \<Rightarrow> bool" where
  "single_dot_segment seg = (lower seg \<in> set [''.'', ''%2e''])"

definition double_dot_segment :: "string \<Rightarrow> bool" where
  "double_dot_segment seg = (lower seg \<in> set [''..'', ''.%2e'', ''%2e.'', ''%2e%2e''])"

text \<open>Shortening a path removes its last segment, except the normalized drive letter that
  is the only segment of a \<open>file\<close> URL.\<close>

definition shorten_path :: "bool \<Rightarrow> string list \<Rightarrow> string list" where
  "shorten_path file segs =
     (if file \<and> (case segs of [s] \<Rightarrow> normalized_windows_drive_letter s | _ \<Rightarrow> False) then segs
      else butlast segs)"

text \<open>Path state, at the end of a segment: \<open>slash\<close> tells whether the segment was ended
  by a path separator (rather than by \<open>?\<close>, \<open>#\<close> or the end of the input).\<close>

definition end_segment :: "bool \<Rightarrow> string list \<Rightarrow> string \<Rightarrow> bool \<Rightarrow> string list" where
  "end_segment file segs buffer slash =
     (if double_dot_segment buffer
      then (if slash then shorten_path file segs else shorten_path file segs @ [[]])
      else if single_dot_segment buffer
      then (if slash then segs else segs @ [[]])
      else if file \<and> segs = [] \<and> windows_drive_letter buffer
      then [[hd buffer, CHR '':'']]
      else segs @ [buffer])"

text \<open>Path state, for a scheme that is special or not, is \<open>file\<close> or not, on a platform
  that encodes \<open>^\<close> or not.\<close>

fun path_state :: "bool \<Rightarrow> bool \<Rightarrow> bool \<Rightarrow> string \<Rightarrow> string list \<Rightarrow> string \<Rightarrow> string list" where
  "path_state special file caret [] segs buffer = end_segment file segs buffer False"
| "path_state special file caret (c # cs) segs buffer =
     (if path_separator special c
      then path_state special file caret cs (end_segment file segs buffer True) []
      else if c = CHR ''?'' \<or> c = CHR ''#'' then end_segment file segs buffer False
      else path_state special file caret cs segs (buffer @ percent_encode_path caret c))"

text \<open>URL path serializer.\<close>

definition serialize_path :: "string list \<Rightarrow> string" where
  "serialize_path segs = concat (map (\<lambda>seg. CHR ''/'' # seg) segs)"

definition parsed_path :: "url_platform \<Rightarrow> bool \<Rightarrow> bool \<Rightarrow> string \<Rightarrow> string \<Rightarrow> string" where
  "parsed_path P special file input buffer =
     serialize_path (path_state special file (encodes_caret P) input [] buffer)"

text \<open>Path start state of a special scheme: one leading path separator is skipped.\<close>

definition path_start :: "string \<Rightarrow> string" where
  "path_start after = (case after of [] \<Rightarrow> [] | c # cs \<Rightarrow> if slash_or_backslash c then cs else after)"

text \<open>Special authority slashes state and special authority ignore slashes state: every
  leading slash and backslash is skipped; then authority, host, port, path start and
  path.\<close>

definition special_pathname :: "url_platform \<Rightarrow> string \<Rightarrow> string outcome" where
  "special_pathname P rest =
     (let r = dropWhile slash_or_backslash rest;
          authority = takeWhile (\<lambda>c. \<not> authority_end True c) r;
          after = dropWhile (\<lambda>c. \<not> authority_end True c) r
      in if authority_parses P True authority
         then Returns (parsed_path P True False (path_start after) [])
         else Throws)"

text \<open>
  File state, file slash state and file host state. A host that is a Windows drive letter
  is not a host: it is kept as the buffer of the path state.
\<close>

definition file_pathname :: "url_platform \<Rightarrow> string \<Rightarrow> string outcome" where
  "file_pathname P rest =
     (case rest of
        [] \<Rightarrow> Returns (parsed_path P True True [] [])
      | c # r1 \<Rightarrow>
          if \<not> slash_or_backslash c then Returns (parsed_path P True True rest [])
          else (case r1 of
                  [] \<Rightarrow> Returns (parsed_path P True True [] [])
                | d # r2 \<Rightarrow>
                    if \<not> slash_or_backslash d then Returns (parsed_path P True True r1 [])
                    else (let buffer = takeWhile (\<lambda>c. \<not> authority_end True c) r2;
                              after = dropWhile (\<lambda>c. \<not> authority_end True c) r2
                          in if windows_drive_letter buffer
                             then Returns (parsed_path P True True after buffer)
                             else if buffer = [] \<or> host_parses P False buffer
                             then Returns (parsed_path P True True (path_start after) [])
                             else Throws)))"

text \<open>
  A scheme that is not special: path or authority state when a slash follows the colon,
  an opaque path otherwise. After the authority the path start state goes to the path
  state on a slash and leaves the path empty on \<open>?\<close>, \<open>#\<close> or the end of the input.
\<close>

definition nonspecial_pathname :: "url_platform \<Rightarrow> string \<Rightarrow> string outcome" where
  "nonspecial_pathname P rest =
     (case rest of
        [] \<Rightarrow> Unmodelled
      | c # r1 \<Rightarrow>
          if c \<noteq> CHR ''/'' then Unmodelled
          else (case r1 of
                  [] \<Rightarrow> Returns (parsed_path P False False [] [])
                | d # r2 \<Rightarrow>
                    if d \<noteq> CHR ''/'' then Returns (parsed_path P False False r1 [])
                    else (let authority = takeWhile (\<lambda>c. \<not> authority_end False c) r2;
                              after = dropWhile (\<lambda>c. \<not> authority_end False c) r2
                          in if \<not> authority_parses P False authority then Throws
                             else (case after of
                                     [] \<Rightarrow> Returns []
                                   | e # cs \<Rightarrow>
                                       if e = CHR ''/''
                                       then Returns (parsed_path P False False cs [])
                                       else Returns []))))"

text \<open>\<open>new URL(input).pathname\<close> on the platform \<open>P\<close>.\<close>

definition whatwg_pathname :: "url_platform \<Rightarrow> string \<Rightarrow> string outcome" where
  "whatwg_pathname P input =
     (case parse_scheme (url_preprocess input) of
        None \<Rightarrow> Throws
      | Some (scheme, rest) \<Rightarrow>
          if scheme = ''file'' then file_pathname P rest
          else if scheme \<in> set special_schemes then special_pathname P rest
          else nonspecial_pathname P rest)"

text \<open>A platform for the examples: its host parser accepts the hosts made of letters,
  digits, dots and hyphens that are not empty, and the empty opaque host; it encodes
  \<open>^\<close>.\<close>

definition example_platform :: url_platform where
  "example_platform =
     \<lparr>host_parses =
        (\<lambda>opaque h. if h = [] then opaque
           else list_all (\<lambda>c. ascii_alphanumeric c \<or> c = CHR ''.'' \<or> c = CHR ''-'') h),
      encodes_caret = True\<rparr>"

text \<open>
  The URLs that the parser leaves as they are. The scheme is well formed; it is special
  when it is one of the special schemes in any letter case.
\<close>

definition valid_scheme :: "string \<Rightarrow> bool" where
  "valid_scheme s = ((case s of [] \<Rightarrow> False | c # _ \<Rightarrow> ascii_alpha c) \<and> list_all scheme_char s)"

definition is_special :: "string \<Rightarrow> bool" where
  "is_special scheme = (lower scheme \<in> set special_schemes)"

text \<open>The authority passes the states that read it: for \<open>file\<close> it is empty or a host
  that the host parser accepts and not a drive letter; otherwise it passes the authority,
  host and port states.\<close>

definition authority_accepted :: "url_platform \<Rightarrow> string \<Rightarrow> string \<Rightarrow> bool" where
  "authority_accepted P scheme a =
     (if lower scheme = ''file''
      then \<not> windows_drive_letter a \<and> (a = [] \<or> host_parses P False a)
      else authority_parses P (is_special scheme) a)"

text \<open>The characters of a path that the path state copies: visible ASCII outside the
  path percent-encode set, and not a backslash when the scheme is special.\<close>

definition path_safe :: "bool \<Rightarrow> bool \<Rightarrow> char \<Rightarrow> bool" where
  "path_safe special caret c =
     (33 \<le> char_code c \<and> char_code c \<le> 126 \<and> \<not> path_percent_encode_set caret c
      \<and> \<not> (special \<and> c = CHR 0x5C))"

definition no_dot_segments :: "string \<Rightarrow> bool" where
  "no_dot_segments p =
     list_all (\<lambda>seg. \<not> single_dot_segment seg \<and> \<not> double_dot_segment seg)
       (split_on (CHR ''/'') p)"

text \<open>The first segment of the path is not a drive letter written with \<open>|\<close>, which the
  path state of a \<open>file\<close> URL rewrites.\<close>

definition keeps_drive_letter :: "string \<Rightarrow> bool" where
  "keeps_drive_letter p =
     (\<not> windows_drive_letter (takeWhile (\<lambda>c. c \<noteq> CHR ''/'') p)
      \<or> normalized_windows_drive_letter (takeWhile (\<lambda>c. c \<noteq> CHR ''/'') p))"

section \<open>Response serialization (response.ts)\<close>

subsection \<open>Strings\<close>

definition digit_char :: "nat \<Rightarrow> char" where
  "digit_char d = char_of (48 + d)"

text \<open>The decimal form of a number, as \<open>toString()\<close> and template literals produce it.\<close>

function string_of_nat :: "nat \<Rightarrow> string" where
  "string_of_nat n =
     (if n < 10 then [digit_char n] else string_of_nat (n div 10) @ [digit_char (n mod 10)])"
  by pat_completeness auto
termination
  by (relation "measure id") auto

declare string_of_nat.simps [simp del]

definition string_of_int :: "int \<Rightarrow> string" where
  "string_of_int i = (if i < 0 then CHR ''-'' # string_of_nat (nat (- i)) else string_of_nat (nat i))"

text \<open>
  The text of a number in a template literal (\<open>Number::toString\<close>), for an integral
  number that is not negative. A number is a double: an integer beyond \<open>2 ^ 53\<close> stands
  for the double nearest to it (ties to the even mantissa). The text has the fewest
  significant digits that still denote that double, the decimal closest to it among those;
  it is written out in full up to 21 digits and in exponent notation from \<open>1e21\<close> on.
\<close>

function bit_length :: "int \<Rightarrow> nat" where
  "bit_length n = (if n \<le> 0 then 0 else Suc (bit_length (n div 2)))"
  by pat_completeness auto
termination
  by (relation "measure nat") auto

declare bit_length.simps [simp del]

function decimal_digits :: "int \<Rightarrow> string" where
  "decimal_digits n =
     (if n < 10 then [digit_char (nat n)]
      else decimal_digits (n div 10) @ [digit_char (nat (n mod 10))])"
  by pat_completeness auto
termination
  by (relation "measure nat") auto

declare decimal_digits.simps [simp del]

definition nearest_double :: "int \<Rightarrow> int" where
  "nearest_double m =
     (let u = 2 ^ (bit_length m - 53); q = m div u; r = m mod u
      in if 2 * r < u \<or> (2 * r = u \<and> even q) then q * u else (q + 1) * u)"

text \<open>The decimals of \<open>k\<close> significant digits on either side of \<open>v\<close>, the closer one first
  (the even one on a tie).\<close>

definition decimal_candidates :: "int \<Rightarrow> nat \<Rightarrow> int list" where
  "decimal_candidates v k =
     (let p = 10 ^ (length (decimal_digits v) - k); lo = (v div p) * p; hi = lo + p
      in if v - lo < hi - v \<or> (v - lo = hi - v \<and> even (v div p)) then [lo, hi] else [hi, lo])"

definition shortest_decimal :: "int \<Rightarrow> int" where
  "shortest_decimal v =
     (case concat (map (\<lambda>k. filter (\<lambda>c. nearest_double c = v) (decimal_candidates v k)) [1..<18]) of
        [] \<Rightarrow> v
      | c # _ \<Rightarrow> c)"

definition number_text_nat :: "int \<Rightarrow> string" where
  "number_text_nat m =
     (let s = decimal_digits (shortest_decimal (nearest_double m))
      in if length s \<le> 21 then s
         else (let sig = rev (dropWhile (\<lambda>c. c = CHR ''0'') (rev s))
               in hd sig # (if tl sig = [] then [] else CHR ''.'' # tl sig)
                  @ ''e+'' @ string_of_nat (length s - 1)))"

text \<open>The text of an integral number of either sign.\<close>

definition number_text :: "int \<Rightarrow> string" where
  "number_text i = (if i < 0 then CHR ''-'' # number_text_nat (- i) else number_text_nat i)"

text \<open>\<open>s.split("\n")\<close>.\<close>

definition split_lines :: "string \<Rightarrow> string list" where
  "split_lines s = split_on (CHR 0x0A) s"

definition trim :: "string \<Rightarrow> string" where
  "trim s = rev (dropWhile js_whitespace (rev (dropWhile js_whitespace s)))"

subsection \<open>Values and bodies\<close>

text \<open>
  A response body (\<open>BodyInit\<close>). \<open>BJson v indent\<close> is the string
  \<open>JSON.stringify(v, undefined, indent ? 2 : undefined)\<close>; streams are known by identity
  only.
\<close>

datatype body_init =
    BString string
  | BJson json bool
  | BBytes "nat list"
  | BStream nat
  | BOther nat

text \<open>A \<open>Response\<close> of the platform: body (\<open>None\<close> is \<open>null\<close>), status, status text and
  headers.\<close>

record web_response =
  r_body :: "body_init option"
  r_status :: jsnum
  r_statusText :: string
  r_headers :: headers

record blob =
  blob_type :: string
  blob_size :: nat
  blob_stream :: nat

text \<open>
  The values a handler can return, one constructor for each class that the type dispatch
  of \<open>prepareResponse\<close> and \<open>prepareResponseBody\<close> tells apart, in the order of the
  tests. \<open>JsonVal\<close> stands for the values accepted by \<open>isJSONSerializable\<close> (numbers,
  booleans, plain objects and arrays), \<open>OtherVal\<close> for whatever no test matches.
\<close>

datatype handler_value =
    KHandled
  | ResponseVal web_response
  | Nullish
  | KNotFound
  | StringVal string
  | Uint8ArrayVal "nat list"
  | H3ErrorVal H3Error
  | ErrorVal error_input
  | JsonVal json
  | BigIntVal int
  | BlobVal blob
  | SymbolVal
  | FunctionVal
  | OtherVal body_init

text \<open>The argument \<open>init\<close> of the \<open>Response\<close> constructor, as \<open>prepareResponse\<close> fills it.\<close>

datatype headers_init = HeadersObject headers | HeadersRecord "(string \<times> string) list"

record PreparedResponse =
  body :: "body_init option"
  init_status :: "jsnum option"
  init_statusText :: "string option"
  init_headers :: "headers_init option"

text \<open>\<open>new Response(body, init)\<close>: an absent status is 200, an absent status text is empty,
  the headers are copied into a \<open>Headers\<close> object.\<close>

definition new_Response :: "PreparedResponse \<Rightarrow> web_response" where
  "new_Response i =
     \<lparr> r_body = body i,
       r_status = (case init_status i of None \<Rightarrow> Num 200 | Some s \<Rightarrow> s),
       r_statusText = (case init_statusText i of None \<Rightarrow> [] | Some t \<Rightarrow> t),
       r_headers = (case init_headers i of
                      None \<Rightarrow> []
                    | Some (HeadersObject h) \<Rightarrow> h
                    | Some (HeadersRecord kvs) \<Rightarrow> new_Headers (Some kvs)) \<rparr>"

definition isNullStatus :: "jsnum option \<Rightarrow> bool" where
  "isNullStatus status' =
     (truthy_status status' \<and>
      (status' = Some (Num 100) \<or> status' = Some (Num 101) \<or> status' = Some (Num 102) \<or>
       status' = Some (Num 204) \<or> status' = Some (Num 205) \<or> status' = Some (Num 304)))"

text \<open>An object literal handed to \<open>JSON.stringify\<close>: properties whose value is
  \<open>undefined\<close> are left out of the text.\<close>

definition json_object :: "(string \<times> json option) list \<Rightarrow> json" where
  "json_object props = JObject (List.map_filter (\<lambda>(k, v). map_option (Pair k) v) props)"

subsection \<open>Preparing the body\<close>

definition json_content_type :: string where
  "json_content_type = ''application/json; charset=utf-8''"

definition prepareErrorResponseBody ::
  "string option \<Rightarrow> createError_input \<Rightarrow> H3Event \<Rightarrow> H3Config \<Rightarrow> body_init \<times> H3Event" where
  "prepareErrorResponseBody trace val event config =
     (let error = createError trace val;
          r1 = (response event)\<lparr>status := Some (statusCode error),
                                 statusText := statusMessage error\<rparr>;
          r2 = setHeader r1 ''content-type'' json_content_type
      in (BJson (json_object
                   [(''statusCode'', Some (JNumber (statusCode error))),
                    (''statusMessage'', map_option JString (statusMessage error)),
                    (''data'', data error),
                    (''stack'',
                       (case stack error of
                          None \<Rightarrow> None
                        | Some st \<Rightarrow>
                            if debug config \<and> st \<noteq> []
                            then Some (JArray (map (\<lambda>l. JString (trim l)) (split_lines st)))
                            else None))])
                False,
          event\<lparr>response := r2\<rparr>))"

definition prepareResponseBody ::
  "string option \<Rightarrow> handler_value \<Rightarrow> H3Event \<Rightarrow> H3Config \<Rightarrow> body_init option \<times> H3Event" where
  "prepareResponseBody trace val event config =
     (case val of
        Nullish \<Rightarrow> (Some (BString []), event)
      | KNotFound \<Rightarrow>
          apfst Some (prepareErrorResponseBody trace
            (InObject (empty_input
               \<lparr>in_statusCode := VNumber (Num 404),
                in_statusMessage :=
                  Some (''Cannot find any route matching ['' @ request_method event @ ''] '' @ path event)\<rparr>))
            event config)
      | StringVal s \<Rightarrow> (Some (BString s), event)
      | Uint8ArrayVal bytes \<Rightarrow>
          (Some (BBytes bytes),
           event\<lparr>response :=
             setHeader (response event) ''content-length'' (string_of_nat (length bytes))\<rparr>)
      | H3ErrorVal e \<Rightarrow> apfst Some (prepareErrorResponseBody trace (InH3Error e) event config)
      | ErrorVal inp \<Rightarrow> apfst Some (prepareErrorResponseBody trace (InObject inp) event config)
      | JsonVal j \<Rightarrow>
          (Some (BJson j (debug config)),
           event\<lparr>response := setHeader (response event) ''content-type'' json_content_type\<rparr>)
      | BigIntVal i \<Rightarrow>
          (Some (BString (string_of_int i)),
           event\<lparr>response := setHeader (response event) ''content-type'' json_content_type\<rparr>)
      | ResponseVal r \<Rightarrow>
          (r_body r,
           event\<lparr>response :=
             foldl (\<lambda>resp (name, v). setHeader resp name v)
               ((response event)\<lparr>status := Some (r_status r),
                                  statusText := Some (r_statusText r)\<rparr>)
               (r_headers r)\<rparr>)
      | BlobVal b \<Rightarrow>
          (Some (BStream (blob_stream b)),
           event\<lparr>response :=
             setHeader (setHeader (response event) ''content-type'' (blob_type b))
               ''content-length'' (string_of_nat (blob_size b))\<rparr>)
      | KHandled \<Rightarrow>
          apfst Some (prepareErrorResponseBody trace
            (InObject (empty_input
               \<lparr>in_statusCode := VNumber (Num 500),
                in_statusMessage := Some ''[h3] Cannot send symbol as response.''\<rparr>))
            event config)
      | SymbolVal \<Rightarrow>
          apfst Some (prepareErrorResponseBody trace
            (InObject (empty_input
               \<lparr>in_statusCode := VNumber (Num 500),
                in_statusMessage := Some ''[h3] Cannot send symbol as response.''\<rparr>))
            event config)
      | FunctionVal \<Rightarrow>
          apfst Some (prepareErrorResponseBody trace
            (InObject (empty_input
               \<lparr>in_statusCode := VNumber (Num 500),
                in_statusMessage := Some ''[h3] Cannot send function as response.''\<rparr>))
            event config)
      | OtherVal b \<Rightarrow> (Some b, event))"

subsection \<open>Preparing the response\<close>

text \<open>\<open>status || d\<close> and \<open>statusText || d\<close> for an optional number and an optional string.\<close>

definition or_num :: "jsnum option \<Rightarrow> jsnum \<Rightarrow> jsnum" where
  "or_num a d = (if truthy_status a then (case a of Some n \<Rightarrow> n | None \<Rightarrow> d) else d)"

definition or_text :: "string option \<Rightarrow> string \<Rightarrow> string" where
  "or_text a d = (if truthy_text a then (case a of Some t \<Rightarrow> t | None \<Rightarrow> d) else d)"

text \<open>\<open>response._headers || response._headersInit\<close>.\<close>

definition response_headers_init :: "H3EventResponse \<Rightarrow> headers_init option" where
  "response_headers_init r =
     (case headers' r of
        Some h \<Rightarrow> Some (HeadersObject h)
      | None \<Rightarrow> map_option HeadersRecord (headersInit' r))"

text \<open>
  \<open>prepareResponse(val, event, config)\<close>. The result is the response together with the
  event as the call leaves it.
\<close>

definition prepareResponse ::
  "string option \<Rightarrow> handler_value \<Rightarrow> H3Event \<Rightarrow> H3Config \<Rightarrow> web_response \<times> H3Event" where
  "prepareResponse trace val event config =
     (let isHead = (request_method event = ''HEAD'')
      in case val of
           KHandled \<Rightarrow>
             (new_Response \<lparr>body = None, init_status = None, init_statusText = None,
                            init_headers = None\<rparr>, event)
         | ResponseVal r \<Rightarrow>
             (let status' = status (response event);
                  statusText' = statusText (response event);
                  headers = response_headers_init (response event)
              in if \<not> truthy_status status' \<and> \<not> truthy_text statusText' \<and> headers = None
                 then (r, event)
                 else (new_Response
                         \<lparr>body = (if isHead \<or> isNullStatus status' then None else r_body r),
                          init_status = Some (or_num status' (r_status r)),
                          init_statusText = Some (or_text statusText' (r_statusText r)),
                          init_headers =
                            Some (case headers of
                                    Some h \<Rightarrow> h
                                  | None \<Rightarrow> HeadersObject (r_headers r))\<rparr>,
                       event))
         | _ \<Rightarrow>
             (let (body', event') = prepareResponseBody trace val event config;
                  status' = status (response event')
              in (new_Response
                    \<lparr>body = (if isHead \<or> isNullStatus status' then None else body'),
                     init_status = status',
                     init_statusText = statusText (response event'),
                     init_headers = response_headers_init (response event')\<rparr>,
                  event')))"

section \<open>Response helpers (utils/response.ts)\<close>


section \<open>Handler composition (handler.ts)\<close>

text \<open>
  Hooks and handlers are asynchronous functions with effects. An invocation is modelled
  as a function of the world \<open>'w\<close> it runs in (the event's mutable state and whatever
  else it touches): it either throws (\<open>Inl\<close>) or settles (\<open>Inr\<close>) with the world it
  leaves behind. \<open>await\<close> is sequencing. A pre-response hook receives the event and the
  container \<open>{ body }\<close>; what it leaves in the container is part of its result.
\<close>

type_synonym ('e, 'w, 'x) RequestMiddleware = "'e \<Rightarrow> 'w \<Rightarrow> 'x + 'w"

type_synonym ('e, 'b, 'w, 'x) ResponseMiddleware = "'e \<Rightarrow> 'b \<Rightarrow> 'w \<Rightarrow> 'x + 'b \<times> 'w"

type_synonym ('e, 'b, 'w, 'x) EventHandler = "'e \<Rightarrow> 'w \<Rightarrow> 'x + 'b \<times> 'w"

text \<open>A hook option of a handler object: one hook or an array of hooks.\<close>

datatype 'a one_or_many = One 'a | Many "'a list"

record ('e, 'b, 'w, 'x) EventHandlerObject =
  onRequest :: "('e, 'w, 'x) RequestMiddleware one_or_many option"
  onBeforeResponse :: "('e, 'b, 'w, 'x) ResponseMiddleware one_or_many option"
  handler :: "('e, 'b, 'w, 'x) EventHandler"

record ('e, 'b, 'w, 'x) EventHandlerHooks =
  hooks_onRequest :: "('e, 'w, 'x) RequestMiddleware list option"
  hooks_onBeforeResponse :: "('e, 'b, 'w, 'x) ResponseMiddleware list option"

datatype ('e, 'b, 'w, 'x) handler_input =
    HandlerFunction "('e, 'b, 'w, 'x) EventHandler"
  | HandlerObject "('e, 'b, 'w, 'x) EventHandlerObject"

text \<open>\<open>_normalizeArray\<close>: functions and arrays (the empty one included) are truthy.\<close>

fun normalizeArray :: "'a one_or_many option \<Rightarrow> 'a list option" where
  "normalizeArray None = None"
| "normalizeArray (Some (One x)) = Some [x]"
| "normalizeArray (Some (Many xs)) = Some xs"

text \<open>\<open>for (const hook of hooks.onRequest) await hook(event)\<close>.\<close>

fun run_onRequest ::
  "('e, 'w, 'x) RequestMiddleware list \<Rightarrow> 'e \<Rightarrow> 'w \<Rightarrow> 'x + 'w" where
  "run_onRequest [] event w = Inr w"
| "run_onRequest (hook # hooks) event w =
     (case hook event w of
        Inl x \<Rightarrow> Inl x
      | Inr w' \<Rightarrow> run_onRequest hooks event w')"

text \<open>\<open>for (const hook of hooks.onBeforeResponse) await hook(event, response)\<close>.\<close>

fun run_onBeforeResponse ::
  "('e, 'b, 'w, 'x) ResponseMiddleware list \<Rightarrow> 'e \<Rightarrow> 'b \<Rightarrow> 'w \<Rightarrow> 'x + 'b \<times> 'w" where
  "run_onBeforeResponse [] event body' w = Inr (body', w)"
| "run_onBeforeResponse (hook # hooks) event body' w =
     (case hook event body' w of
        Inl x \<Rightarrow> Inl x
      | Inr (body'', w') \<Rightarrow> run_onBeforeResponse hooks event body'' w')"

text \<open>\<open>_callHandler(event, handler, hooks)\<close>.\<close>

definition callHandler ::
  "'e \<Rightarrow> ('e, 'b, 'w, 'x) EventHandler \<Rightarrow> ('e, 'b, 'w, 'x) EventHandlerHooks \<Rightarrow>
   'w \<Rightarrow> 'x + 'b \<times> 'w" where
  "callHandler event handler' hooks w =
     (case (case hooks_onRequest hooks of
              None \<Rightarrow> Inr w
            | Some hs \<Rightarrow> run_onRequest hs event w) of
        Inl x \<Rightarrow> Inl x
      | Inr w1 \<Rightarrow>
          (case handler' event w1 of
             Inl x \<Rightarrow> Inl x
           | Inr (body', w2) \<Rightarrow>
               (case hooks_onBeforeResponse hooks of
                  None \<Rightarrow> Inr (body', w2)
                | Some hs \<Rightarrow> run_onBeforeResponse hs event body' w2)))"

text \<open>\<open>defineEventHandler\<close>; the \<open>resolve\<close> and \<open>websocket\<close> properties copied onto the
  result are not part of the call and are left out.\<close>

definition defineEventHandler ::
  "('e, 'b, 'w, 'x) handler_input \<Rightarrow> ('e, 'b, 'w, 'x) EventHandler" where
  "defineEventHandler h =
     (case h of
        HandlerFunction f \<Rightarrow> f
      | HandlerObject obj \<Rightarrow>
          (\<lambda>event. callHandler event (handler obj)
             \<lparr>hooks_onRequest = normalizeArray (onRequest obj),
              hooks_onBeforeResponse = normalizeArray (onBeforeResponse obj)\<rparr>))"

section \<open>Server-sent events (utils/internal/event-stream.ts)\<close>

text \<open>\<open>EventStreamMessage\<close>: \<open>{id?: string, event?: string, retry?: number, data: string}\<close>.\<close>

record EventStreamMessage =
  msg_id :: "string option"
  msg_event :: "string option"
  msg_retry :: "jsnum option"
  msg_data :: string

definition formatEventStreamMessage :: "EventStreamMessage \<Rightarrow> string" where
  "formatEventStreamMessage message' =
     (if truthy_text (msg_id message')
      then ''id: '' @ (case msg_id message' of Some i \<Rightarrow> i | None \<Rightarrow> []) @ [CHR 0x0A] else [])
     @ (if truthy_text (msg_event message')
        then ''event: '' @ (case msg_event message' of Some e \<Rightarrow> e | None \<Rightarrow> []) @ [CHR 0x0A]
        else [])
     @ (case msg_retry message' of
          Some (Num n) \<Rightarrow> ''retry: '' @ number_text n @ [CHR 0x0A]
        | _ \<Rightarrow> [])
     @ ''data: '' @ msg_data message' @ [CHR 0x0A, CHR 0x0A]"

definition formatEventStreamMessages :: "EventStreamMessage list \<Rightarrow> string" where
  "formatEventStreamMessages messages =
     foldl (\<lambda>result msg. result @ formatEventStreamMessage msg) [] messages"

text \<open>
  The writer of the stream's \<open>TransformStream\<close>. \<open>w_writes\<close> lists the chunks passed to
  \<open>write\<close>, one per call, in order; a call resolves when the writer is writable and
  rejects when the stream has errored (the peer is gone) or is closed. The chunk
  \<open>encoder.encode(payload)\<close> is identified with the payload.
\<close>

datatype writer_state = Writable | Errored | Closed

record writer =
  w_state :: writer_state
  w_writes :: "string list"

definition writer_write :: "writer \<Rightarrow> string \<Rightarrow> bool \<times> writer" where
  "writer_write w chunk = (w_state w = Writable, w\<lparr>w_writes := w_writes w @ [chunk]\<rparr>)"

text \<open>The private state of \<open>class EventStream\<close>.\<close>

record EventStream =
  es_writer :: writer
  writerIsClosed :: bool
  paused :: bool
  unsentData :: "string option"
  disposed :: bool
  handled :: bool

definition sendPayload :: "EventStream \<Rightarrow> string \<Rightarrow> EventStream" where
  "sendPayload s payload =
     (if paused s \<and> \<not> truthy_text (unsentData s) then s\<lparr>unsentData := Some payload\<rparr>
      else if paused s
      then s\<lparr>unsentData := Some ((case unsentData s of Some d \<Rightarrow> d | None \<Rightarrow> []) @ payload)\<rparr>
      else s\<lparr>es_writer := snd (writer_write (es_writer s) payload)\<rparr>)"

text \<open>\<open>_sendEvent\<close> and \<open>_sendEvents\<close>: after the closed test and the formatting, both
  run the same three cases (\<open>sendPayload\<close>); a rejected write is swallowed.\<close>

definition sendEvent :: "EventStream \<Rightarrow> EventStreamMessage \<Rightarrow> EventStream" where
  "sendEvent s message' =
     (if writerIsClosed s then s else sendPayload s (formatEventStreamMessage message'))"

definition sendEvents :: "EventStream \<Rightarrow> EventStreamMessage list \<Rightarrow> EventStream" where
  "sendEvents s messages =
     (if writerIsClosed s then s else sendPayload s (formatEventStreamMessages messages))"

text \<open>The argument of \<open>push\<close>: a string, an array of strings, a message or an array of
  messages.\<close>

datatype push_message =
    PushString string
  | PushStrings "string list"
  | PushMessage EventStreamMessage
  | PushMessages "EventStreamMessage list"

definition data_message :: "string \<Rightarrow> EventStreamMessage" where
  "data_message d = \<lparr>msg_id = None, msg_event = None, msg_retry = None, msg_data = d\<rparr>"

fun push :: "EventStream \<Rightarrow> push_message \<Rightarrow> EventStream" where
  "push s (PushString m) = sendEvent s (data_message m)"
| "push s (PushStrings ms) = (if length ms = 0 then s else sendEvents s (map data_message ms))"
| "push s (PushMessages ms) = (if length ms = 0 then s else sendEvents s ms)"
| "push s (PushMessage m) = sendEvent s m"

definition pause :: "EventStream \<Rightarrow> EventStream" where
  "pause s = s\<lparr>paused := True\<rparr>"

definition flush :: "EventStream \<Rightarrow> EventStream" where
  "flush s =
     (if writerIsClosed s then s
      else (case unsentData s of
              None \<Rightarrow> s
            | Some d \<Rightarrow>
                if length d = 0 then s
                else (let (ok, w) = writer_write (es_writer s) d
                      in if ok then s\<lparr>es_writer := w, unsentData := None\<rparr>
                         else s\<lparr>es_writer := w\<rparr>)))"

definition resume :: "EventStream \<Rightarrow> EventStream" where
  "resume s = flush (s\<lparr>paused := False\<rparr>)"

text \<open>The messages a call of \<open>push\<close> stands for, in order.\<close>

fun messages_of :: "push_message \<Rightarrow> EventStreamMessage list" where
  "messages_of (PushString m) = [data_message m]"
| "messages_of (PushStrings ms) = map data_message ms"
| "messages_of (PushMessage m) = [m]"
| "messages_of (PushMessages ms) = ms"

text \<open>The text held by the pending buffer \<open>_unsentData\<close> (empty when \<open>undefined\<close>).\<close>

definition buffered :: "EventStream \<Rightarrow> string" where
  "buffered s = (case unsentData s of None \<Rightarrow> [] | Some d \<Rightarrow> d)"

section \<open>Properties of error normalization\<close>

lemma parseInt10_404: "parseInt10 ''404'' = Num 404"
  by (simp add: parseInt10_def Let_def is_digit_def char_code_def js_whitespace_def
        digits_value_def digit_value_def)

lemma createError_number_outside_range:
  "n < 100 \<or> 999 < n \<Longrightarrow>
   statusCode (createError t (InObject (inp\<lparr>in_statusCode := VNumber (Num n)\<rparr>))) = Num 200"
  by (auto simp: createError_def sanitizeStatusCode_def Let_def new_H3Error_def
        split: option.splits)

text \<open>
  Claim C2. The claim says that an input object whose \<open>statusCode\<close> is a number outside
  \<open>[100,999]\<close>, such as \<open>{statusCode: 999999}\<close>, is normalized to an error with
  \<open>statusCode\<close> 500. The code calls \<open>sanitizeStatusCode(statusCode)\<close> without a second
  argument, so the parameter default 200 is what an out-of-range number is replaced by:
  whatever the other fields of the input object are, the returned error has
  \<open>statusCode\<close> 200.
\<close>

theorem createError_999999_yields_200:
  "statusCode (createError t (InObject (inp\<lparr>in_statusCode := VNumber (Num 999999)\<rparr>))) = Num 200"
  by (simp add: createError_number_outside_range)

text \<open>
  Claim C3, as stated, fails: for \<open>{statusCode: "404"}\<close> the returned error does not have
  \<open>statusCode\<close> 404.
\<close>

theorem createError_numeric_string_counterexample:
  "statusCode (createError None (InObject (empty_input\<lparr>in_statusCode := VString ''404''\<rparr>)))
     \<noteq> Num 404"
  by (simp add: createError_def Let_def new_H3Error_def empty_input_def)

text \<open>
  Claim C3, amended. \<open>createError\<close> assigns a status code only under the guard
  \<open>typeof statusCode === "number"\<close>: for every input object whose \<open>statusCode\<close> field is a
  string, numeric or not, the returned error keeps the class default 500. Numeric strings
  are accepted by \<open>sanitizeStatusCode\<close> itself, which parses \<open>"404"\<close> to 404.
\<close>

theorem createError_string_status_keeps_default:
  "statusCode (createError t (InObject (inp\<lparr>in_statusCode := VString s\<rparr>))) = Num 500
   \<and> sanitizeStatusCode (VString ''404'') d = Num 404"
  by (auto simp: createError_def Let_def new_H3Error_def sanitizeStatusCode_def parseInt10_404
        split: option.splits)

section \<open>Properties of response serialization\<close>

lemma lower_content_length: "lower ''content-length'' = ''content-length''"
  by code_simp

lemma prepareResponse_body:
  "prepareResponse t val ev cfg = (res, ev') \<Longrightarrow> val \<noteq> KHandled \<Longrightarrow>
   (\<forall>r. val \<noteq> ResponseVal r) \<Longrightarrow>
   ev' = snd (prepareResponseBody t val ev cfg) \<and>
   r_body res = (if request_method ev = ''HEAD'' \<or> isNullStatus (status (response ev')) then None
                 else fst (prepareResponseBody t val ev cfg))"
  by (cases val) (auto simp: prepareResponse_def new_Response_def Let_def split: prod.splits)

lemma prepareResponse_StringVal:
  "prepareResponse t (StringVal s) ev cfg =
     (new_Response
        \<lparr>body = (if request_method ev = ''HEAD'' \<or> isNullStatus (status (response ev)) then None
                 else Some (BString s)),
         init_status = status (response ev),
         init_statusText = statusText (response ev),
         init_headers = response_headers_init (response ev)\<rparr>, ev)"
  by (simp add: prepareResponse_def prepareResponseBody_def Let_def)

lemma setHeader_status:
  "status (setHeader r n v) = status r \<and> statusText (setHeader r n v) = statusText r"
  by (simp add: setHeader_def Let_def split: option.splits)

lemma prepareResponseBody_keeps_status:
  assumes "val = Nullish \<or> (\<exists>s. val = StringVal s) \<or> (\<exists>b. val = Uint8ArrayVal b)
           \<or> (\<exists>j. val = JsonVal j) \<or> (\<exists>i. val = BigIntVal i) \<or> (\<exists>b. val = BlobVal b)
           \<or> (\<exists>b. val = OtherVal b)"
  shows "status (response (snd (prepareResponseBody t val ev cfg))) = status (response ev)"
  using assms by (auto simp: prepareResponseBody_def setHeader_status)

text \<open>
  Claim C4, as stated, fails: for a \<open>HEAD\<close> request whose handler returns a pre-built
  \<open>Response\<close> with a body, on an event with no status, status text or headers set, the
  response is returned unchanged and keeps its body.
\<close>

theorem prepareResponse_head_response_counterexample:
  "r_body (fst (prepareResponse None
      (ResponseVal \<lparr>r_body = Some (BStream 0), r_status = Num 200, r_statusText = [],
                    r_headers = []\<rparr>)
      \<lparr>request_method = ''HEAD'', path = ''/'', response = new_WebEventResponse\<rparr>
      \<lparr>debug = False\<rparr>)) = Some (BStream 0)"
  by (simp add: prepareResponse_def new_WebEventResponse_def truthy_status_def truthy_text_def
        response_headers_init_def)

text \<open>
  Claim C4, amended. Let \<open>ev'\<close> be the event as \<open>prepareResponse\<close> leaves it, so that
  its response status is the one the response is assembled with (body preparation
  replaces the status by the error's for an error value, the not-found sentinel, a symbol
  or a function). If the request method is \<open>HEAD\<close> or that status is one of 100, 101,
  102, 204, 205, 304, the final response has a null body, for every kind of value, except
  that a pre-built \<open>Response\<close> is returned unchanged when the event has no status, status
  text or headers set.
\<close>

theorem prepareResponse_null_body:
  assumes "prepareResponse t val ev cfg = (res, ev')"
      and "request_method ev = ''HEAD'' \<or> isNullStatus (status (response ev'))"
      and "\<forall>r. val = ResponseVal r \<longrightarrow>
             truthy_status (status (response ev)) \<or> truthy_text (statusText (response ev))
             \<or> headers' (response ev) \<noteq> None \<or> headersInit' (response ev) \<noteq> None"
  shows "r_body res = None"
proof (cases "val = KHandled \<or> (\<exists>r. val = ResponseVal r)")
  case False
  with prepareResponse_body [OF assms(1)] assms(2) show ?thesis by auto
next
  case True
  then show ?thesis
  proof
    assume "val = KHandled"
    with assms(1) show ?thesis by (auto simp: prepareResponse_def new_Response_def)
  next
    assume "\<exists>r. val = ResponseVal r"
    then obtain r where r: "val = ResponseVal r" ..
    with assms(3) have "truthy_status (status (response ev))
        \<or> truthy_text (statusText (response ev))
        \<or> headers' (response ev) \<noteq> None \<or> headersInit' (response ev) \<noteq> None"
      by simp
    then have "\<not> (\<not> truthy_status (status (response ev))
        \<and> \<not> truthy_text (statusText (response ev))
        \<and> response_headers_init (response ev) = None)"
      by (auto simp: response_headers_init_def split: option.splits)
    with assms(1,2) r show ?thesis
      by (auto simp: prepareResponse_def new_Response_def Let_def split: if_splits)
  qed
qed

theorem prepareResponse_null_body_witness:
  "r_body (fst (prepareResponse None (StringVal ''hello'')
      \<lparr>request_method = ''GET'', path = ''/'',
        response = new_WebEventResponse\<lparr>status := Some (Num 204)\<rparr>\<rparr>
      \<lparr>debug = False\<rparr>)) = None
   \<and> r_body (fst (prepareResponse None
      (ResponseVal \<lparr>r_body = Some (BStream 0), r_status = Num 200, r_statusText = [],
                    r_headers = []\<rparr>)
      \<lparr>request_method = ''HEAD'', path = ''/'',
        response = new_WebEventResponse\<lparr>status := Some (Num 200)\<rparr>\<rparr>
      \<lparr>debug = False\<rparr>)) = None"
proof -
  let ?ev = "\<lparr>request_method = ''GET'', path = ''/'',
              response = new_WebEventResponse\<lparr>status := Some (Num 204)\<rparr>\<rparr>"
  let ?p = "prepareResponse None (StringVal ''hello'') ?ev \<lparr>debug = False\<rparr>"
  have 1: "?p = (fst ?p, snd ?p)" by simp
  have 2: "request_method ?ev = ''HEAD'' \<or> isNullStatus (status (response (snd ?p)))"
    by (simp add: prepareResponse_StringVal isNullStatus_def truthy_status_def
          new_WebEventResponse_def)
  have 3: "\<forall>r. StringVal ''hello'' = ResponseVal r \<longrightarrow>
             truthy_status (status (response ?ev)) \<or> truthy_text (statusText (response ?ev))
             \<or> headers' (response ?ev) \<noteq> None \<or> headersInit' (response ?ev) \<noteq> None"
    by simp
  let ?val = "ResponseVal \<lparr>r_body = Some (BStream 0), r_status = Num 200, r_statusText = [],
                    r_headers = []\<rparr>"
  let ?hev = "\<lparr>request_method = ''HEAD'', path = ''/'',
        response = new_WebEventResponse\<lparr>status := Some (Num 200)\<rparr>\<rparr>"
  let ?hp = "prepareResponse None ?val ?hev \<lparr>debug = False\<rparr>"
  have 4: "?hp = (fst ?hp, snd ?hp)" by simp
  have 5: "request_method ?hev = ''HEAD'' \<or> isNullStatus (status (response (snd ?hp)))"
    by simp
  have 6: "\<forall>r. ?val = ResponseVal r \<longrightarrow>
             truthy_status (status (response ?hev)) \<or> truthy_text (statusText (response ?hev))
             \<or> headers' (response ?hev) \<noteq> None \<or> headersInit' (response ?hev) \<noteq> None"
    by (simp add: truthy_status_def new_WebEventResponse_def)
  show ?thesis
    using prepareResponse_null_body [OF 1 2 3] prepareResponse_null_body [OF 4 5 6] by simp
qed






lemma map_of_headers_append:
  "map_of (headers_append h k v) =
     (map_of h)(lower k \<mapsto> (case map_of h (lower k) of None \<Rightarrow> v | Some old \<Rightarrow> old @ '', '' @ v))"
  by (auto simp: headers_append_def AList.update_conv' map_add_def fun_eq_iff split: option.splits)

lemma foldl_headers_append_agree:
  "(\<And>m. m \<noteq> x \<Longrightarrow> map_of h1 m = map_of h2 m) \<Longrightarrow> m \<noteq> x \<Longrightarrow>
   map_of (foldl (\<lambda>h (k, v). headers_append h k v) h1 kvs) m =
   map_of (foldl (\<lambda>h (k, v). headers_append h k v) h2 kvs) m"
proof (induction kvs arbitrary: h1 h2)
  case Nil
  then show ?case by simp
next
  case (Cons kv kvs)
  obtain k v where kv: "kv = (k, v)" by (cases kv)
  have "\<And>m. m \<noteq> x \<Longrightarrow> map_of (headers_append h1 k v) m = map_of (headers_append h2 k v) m"
    using Cons.prems(1) by (auto simp: map_of_headers_append)
  from Cons.IH [OF this Cons.prems(2)] show ?case by (simp add: kv)
qed

lemma foldl_headers_append_update_other:
  "m \<noteq> lower c \<Longrightarrow>
   map_of (foldl (\<lambda>h (k, v). headers_append h k v) h0 (AList.update c v kvs)) m =
   map_of (foldl (\<lambda>h (k, v). headers_append h k v) h0 kvs) m"
proof (induction kvs arbitrary: h0)
  case Nil
  then show ?case by (simp add: map_of_headers_append)
next
  case (Cons kv kvs)
  obtain k w where kv: "kv = (k, w)" by (cases kv)
  show ?case
  proof (cases "k = c")
    case True
    have "map_of (foldl (\<lambda>h (k, v). headers_append h k v) (headers_append h0 c v) kvs) m =
          map_of (foldl (\<lambda>h (k, v). headers_append h k v) (headers_append h0 c w) kvs) m"
      by (rule foldl_headers_append_agree [where x = "lower c"])
         (simp_all add: map_of_headers_append Cons.prems)
    then show ?thesis by (simp add: kv True)
  next
    case False
    then show ?thesis using Cons.IH [OF Cons.prems] by (simp add: kv)
  qed
qed

lemma foldl_headers_append_absent:
  "\<forall>k\<in>set (map fst kvs). lower k \<noteq> x \<Longrightarrow>
   map_of (foldl (\<lambda>h (k, v). headers_append h k v) h0 kvs) x = map_of h0 x"
  by (induction kvs arbitrary: h0) (auto simp: map_of_headers_append)

lemma foldl_headers_append_update_same:
  "distinct (map fst kvs) \<Longrightarrow> \<forall>k\<in>set (map fst kvs). lower k = lower c \<longrightarrow> k = c \<Longrightarrow>
   map_of (foldl (\<lambda>h (k, v). headers_append h k v) h0 (AList.update c v kvs)) (lower c) =
   Some (case map_of h0 (lower c) of None \<Rightarrow> v | Some old \<Rightarrow> old @ '', '' @ v)"
proof (induction kvs arbitrary: h0)
  case Nil
  then show ?case by (simp add: map_of_headers_append)
next
  case (Cons kv kvs)
  obtain k w where kv: "kv = (k, w)" by (cases kv)
  show ?case
  proof (cases "k = c")
    case True
    with Cons.prems kv have "\<forall>k\<in>set (map fst kvs). lower k \<noteq> lower c" by auto
    from foldl_headers_append_absent [OF this] show ?thesis
      by (simp add: kv True map_of_headers_append)
  next
    case False
    with Cons.prems kv have ne: "lower k \<noteq> lower c" by auto
    from Cons.prems kv have "distinct (map fst kvs)"
      "\<forall>k\<in>set (map fst kvs). lower k = lower c \<longrightarrow> k = c" by auto
    from Cons.IH [OF this, of "headers_append h0 k w"] ne False show ?thesis
      by (simp add: kv map_of_headers_append)
  qed
qed

lemma string_of_nat_3: "string_of_nat (Suc (Suc (Suc 0))) = ''3''"
  by code_simp

text \<open>
  Claim C9, as stated, fails: a \<open>content-length\<close> header set on the event before is not
  left unchanged. With \<open>content-length: 999\<close> set and a buffer of three bytes returned, the
  header reads \<open>3\<close> afterwards.
\<close>

theorem prepareResponseBody_bytes_counterexample:
  "headers_get (fst (get_headers
      \<lparr>status = None, statusText = None,
        headersInit' = Some [(''content-length'', ''999'')], headers' = None\<rparr>))
     ''content-length'' = Some ''999''
   \<and> headers_get (fst (get_headers (response (snd (prepareResponseBody None
        (Uint8ArrayVal [1, 2, 3])
        \<lparr>request_method = ''GET'', path = ''/'',
          response = \<lparr>status = None, statusText = None,
                      headersInit' = Some [(''content-length'', ''999'')], headers' = None\<rparr>\<rparr>
        \<lparr>debug = False\<rparr>)))))
     ''content-length'' = Some ''3''"
  by (simp add: prepareResponseBody_def setHeader_def get_headers_def new_Headers_def
        headers_append_def headers_get_def lower_content_length string_of_nat_3 Let_def)

text \<open>
  Claim C9, amended. For a binary buffer the body is the buffer and the rule calls
  \<open>setHeader("content-length", byteLength)\<close> unconditionally. Read through the \<open>headers\<close>
  getter of the event's response: every header other than \<open>content-length\<close> keeps its
  value, status and status text are unchanged, and \<open>content-length\<close> is the byte length,
  replacing a value set before, whenever the \<open>Headers\<close> object already exists or the plain
  \<open>_headersInit\<close> object holds each key once and no differently cased
  \<open>content-length\<close> key.
\<close>

theorem prepareResponseBody_bytes_sets_content_length:
  assumes "prepareResponseBody t (Uint8ArrayVal bytes) ev cfg = (b, ev')"
  shows "b = Some (BBytes bytes)
    \<and> request_method ev' = request_method ev \<and> path ev' = path ev
    \<and> status (response ev') = status (response ev)
    \<and> statusText (response ev') = statusText (response ev)
    \<and> (\<forall>n. lower n \<noteq> ''content-length'' \<longrightarrow>
          headers_get (fst (get_headers (response ev'))) n =
          headers_get (fst (get_headers (response ev))) n)
    \<and> ((headers' (response ev) \<noteq> None \<or>
         (\<forall>init. headersInit' (response ev) = Some init \<longrightarrow>
            distinct (map fst init) \<and>
            (\<forall>k\<in>set (map fst init). lower k = ''content-length'' \<longrightarrow> k = ''content-length'')))
        \<longrightarrow> headers_get (fst (get_headers (response ev'))) ''content-length'' =
              Some (string_of_nat (length bytes)))"
proof -
  let ?v = "string_of_nat (length bytes)"
  from assms have b: "b = Some (BBytes bytes)"
    and ev': "ev' = ev\<lparr>response := setHeader (response ev) ''content-length'' ?v\<rparr>"
    by (auto simp: prepareResponseBody_def)
  have frame: "status (setHeader r n v) = status r \<and> statusText (setHeader r n v) = statusText r"
    for r n v by (simp add: setHeader_def Let_def split: option.splits)
  have other: "headers_get (fst (get_headers (setHeader r ''content-length'' ?v))) n =
          headers_get (fst (get_headers r)) n" if "lower n \<noteq> ''content-length''" for n r
    using that
    by (auto simp: setHeader_def get_headers_def Let_def headers_get_def headers_set_def
          lower_content_length AList.update_conv' new_Headers_def
          foldl_headers_append_update_other map_of_headers_append
          split: option.splits)
  have same: "headers_get (fst (get_headers (setHeader r ''content-length'' ?v))) ''content-length''
          = Some ?v"
    if "headers' r \<noteq> None \<or>
         (\<forall>init. headersInit' r = Some init \<longrightarrow>
            distinct (map fst init) \<and>
            (\<forall>k\<in>set (map fst init). lower k = ''content-length'' \<longrightarrow> k = ''content-length''))"
    for r
  proof (cases "headers' r")
    case (Some h)
    then show ?thesis
      by (simp add: setHeader_def get_headers_def headers_get_def headers_set_def
            lower_content_length AList.update_conv')
  next
    case None
    show ?thesis
    proof (cases "headersInit' r")
      case N2: None
      with None show ?thesis
        by (simp add: setHeader_def get_headers_def headers_get_def Let_def new_Headers_def
            lower_content_length map_of_headers_append)
    next
      case (Some init)
      with that None have d: "distinct (map fst init)"
        and c: "\<forall>k\<in>set (map fst init). lower k = lower ''content-length''
                  \<longrightarrow> k = ''content-length''"
        by (auto simp: lower_content_length)
      from foldl_headers_append_update_same [OF d c, of "[]" ?v] None Some show ?thesis
        by (simp add: setHeader_def get_headers_def headers_get_def Let_def new_Headers_def
            lower_content_length)
    qed
  qed
  show ?thesis using b other same by (simp add: ev' frame)
qed

lemma lower_x_a: "lower ''x-a'' = ''x-a''"
  by code_simp

theorem prepareResponseBody_bytes_sets_content_length_witness:
  "lower ''x-a'' \<noteq> ''content-length''
   \<and> headers_get (fst (get_headers (response (snd (prepareResponseBody None
        (Uint8ArrayVal [1, 2, 3])
        \<lparr>request_method = ''GET'', path = ''/'',
          response = \<lparr>status = None, statusText = None,
                      headersInit' = Some [(''content-length'', ''999''), (''x-a'', ''1'')],
                      headers' = None\<rparr>\<rparr>
        \<lparr>debug = False\<rparr>))))) ''x-a'' = Some ''1''
   \<and> headers_get (fst (get_headers (response (snd (prepareResponseBody None
        (Uint8ArrayVal [1, 2, 3])
        \<lparr>request_method = ''GET'', path = ''/'',
          response = \<lparr>status = None, statusText = None,
                      headersInit' = Some [(''content-length'', ''999''), (''x-a'', ''1'')],
                      headers' = None\<rparr>\<rparr>
        \<lparr>debug = False\<rparr>))))) ''content-length'' = Some ''3''"
proof -
  let ?r = "\<lparr>status = None, statusText = None,
             headersInit' = Some [(''content-length'', ''999''), (''x-a'', ''1'')],
             headers' = None\<rparr>"
  let ?ev = "\<lparr>request_method = ''GET'', path = ''/'', response = ?r\<rparr>"
  let ?p = "prepareResponseBody None (Uint8ArrayVal [1, 2, 3]) ?ev \<lparr>debug = False\<rparr>"
  have 1: "?p = (fst ?p, snd ?p)" by simp
  have x: "lower ''x-a'' \<noteq> ''content-length''" by (simp add: lower_x_a)
  have before: "headers_get (fst (get_headers ?r)) ''x-a'' = Some ''1''"
    by (simp add: get_headers_def new_Headers_def headers_append_def headers_get_def
          lower_content_length lower_x_a Let_def)
  have wf: "headers' (response ?ev) \<noteq> None \<or>
         (\<forall>init. headersInit' (response ?ev) = Some init \<longrightarrow>
            distinct (map fst init) \<and>
            (\<forall>k\<in>set (map fst init). lower k = ''content-length'' \<longrightarrow> k = ''content-length''))"
    by (simp add: lower_x_a)
  from prepareResponseBody_bytes_sets_content_length [OF 1] x before wf show ?thesis
    by (simp add: string_of_nat_3)
qed

section \<open>Properties of the error body\<close>

lemma trim_trimmed:
  "trim s = [] \<or> (\<not> js_whitespace (hd (trim s)) \<and> \<not> js_whitespace (last (trim s)))"
proof (cases "trim s = []")
  case True
  then show ?thesis by simp
next
  case False
  let ?d = "dropWhile js_whitespace s"
  let ?e = "dropWhile js_whitespace (rev ?d)"
  have t: "trim s = rev ?e" by (simp add: trim_def)
  with False have ne: "?e \<noteq> []" by simp
  then have l: "\<not> js_whitespace (hd ?e)" by (rule hd_dropWhile)
  have "last (trim s) = hd ?e" using ne by (simp add: t last_rev)
  with l have 1: "\<not> js_whitespace (last (trim s))" by simp
  have dne: "?d \<noteq> []"
  proof
    assume a: "?d = []"
    show False using ne unfolding a by simp
  qed
  then have hd: "\<not> js_whitespace (hd ?d)" by (rule hd_dropWhile)
  have "rev ?d = takeWhile js_whitespace (rev ?d) @ ?e" by simp
  then have "?d = rev ?e @ rev (takeWhile js_whitespace (rev ?d))"
    by (metis rev_append rev_rev_ident)
  with ne have "hd ?d = hd (rev ?e)" by (metis hd_append2 rev_is_Nil_conv)
  with hd t have "\<not> js_whitespace (hd (trim s))" by simp
  with 1 show ?thesis by simp
qed

lemma split_on_pieces: "l \<in> set (split_on sep s) \<Longrightarrow> sep \<notin> set l"
  by (induction s arbitrary: l) (auto split: list.splits if_splits)

lemma split_lines_no_LF: "l \<in> set (split_lines s) \<Longrightarrow> CHR 0x0A \<notin> set l"
  unfolding split_lines_def by (rule split_on_pieces)

text \<open>
  Claim C8, as stated, fails: the body does not always contain \<open>statusMessage\<close> and
  \<open>data\<close>. For a plain \<open>Error("boom")\<close> the normalized error has neither, and the body
  is \<open>{"statusCode":500}\<close>.
\<close>

theorem prepareErrorResponseBody_counterexample:
  "fst (prepareErrorResponseBody None (InObject (empty_input\<lparr>in_message := Some ''boom''\<rparr>))
        \<lparr>request_method = ''GET'', path = ''/'', response = new_WebEventResponse\<rparr> \<lparr>debug = False\<rparr>)
   = BJson (JObject [(''statusCode'', JNumber (Num 500))]) False"
  by (simp add: prepareErrorResponseBody_def createError_def empty_input_def new_H3Error_def
        json_object_def List.map_filter_simps Let_def)

text \<open>
  Claim C8, amended. The body of an error is the JSON text of an object whose properties
  are among \<open>statusCode\<close>, \<open>statusMessage\<close>, \<open>data\<close> and \<open>stack\<close>, each at most once and
  never \<open>message\<close>: \<open>statusCode\<close> is always there and is the normalized error's;
  \<open>statusMessage\<close> and \<open>data\<close> are there exactly when the normalized error has them;
  \<open>stack\<close> is there exactly when the debug flag is set and the error has a non-empty
  stack, and is then the array of the stack's lines, each trimmed.
\<close>

theorem prepareErrorResponseBody_shape:
  "\<exists>props. fst (prepareErrorResponseBody t val ev cfg) = BJson (JObject props) False
    \<and> distinct (map fst props)
    \<and> set (map fst props) \<subseteq> {''statusCode'', ''statusMessage'', ''data'', ''stack''}
    \<and> map_of props ''message'' = None
    \<and> map_of props ''statusCode'' = Some (JNumber (statusCode (createError t val)))
    \<and> map_of props ''statusMessage'' = map_option JString (statusMessage (createError t val))
    \<and> map_of props ''data'' = data (createError t val)
    \<and> map_of props ''stack'' =
         (case stack (createError t val) of
            None \<Rightarrow> None
          | Some st \<Rightarrow> if debug cfg \<and> st \<noteq> []
                       then Some (JArray (map (\<lambda>l. JString (trim l)) (split_lines st)))
                       else None)"
proof -
  let ?e = "createError t val"
  let ?stk = "(case stack ?e of
                          None \<Rightarrow> None
                        | Some st \<Rightarrow>
                            if debug cfg \<and> st \<noteq> []
                            then Some (JArray (map (\<lambda>l. JString (trim l)) (split_lines st)))
                            else None)"
  let ?props = "List.map_filter (\<lambda>(k, v). map_option (Pair k) v)
                   [(''statusCode'', Some (JNumber (statusCode ?e))),
                    (''statusMessage'', map_option JString (statusMessage ?e)),
                    (''data'', data ?e),
                    (''stack'', ?stk)]"
  have b: "fst (prepareErrorResponseBody t val ev cfg) = BJson (JObject ?props) False"
    by (auto simp: prepareErrorResponseBody_def Let_def json_object_def)
  have "distinct (map fst ?props)
    \<and> set (map fst ?props) \<subseteq> {''statusCode'', ''statusMessage'', ''data'', ''stack''}
    \<and> map_of ?props ''message'' = None
    \<and> map_of ?props ''statusCode'' = Some (JNumber (statusCode ?e))
    \<and> map_of ?props ''statusMessage'' = map_option JString (statusMessage ?e)
    \<and> map_of ?props ''data'' = data ?e
    \<and> map_of ?props ''stack'' = ?stk"
    by (cases "statusMessage ?e"; cases "data ?e"; cases ?stk)
       (simp_all add: List.map_filter_simps)
  with b show ?thesis by blast
qed

lemma example_stack_lines: "map trim (split_lines ''Error: boom\<newline>    at f (x.js:1:1)'') = [''Error: boom'', ''at f (x.js:1:1)'']"
  by code_simp

theorem prepareErrorResponseBody_shape_witness:
  "fst (prepareErrorResponseBody None
     (InObject (empty_input\<lparr>in_message := Some ''boom'',
                             in_stack := Some ''Error: boom\<newline>    at f (x.js:1:1)''\<rparr>))
     \<lparr>request_method = ''GET'', path = ''/'', response = new_WebEventResponse\<rparr> \<lparr>debug = True\<rparr>)
   = BJson (JObject [(''statusCode'', JNumber (Num 500)),
                     (''stack'', JArray [JString ''Error: boom'', JString ''at f (x.js:1:1)''])])
       False"
proof -
  let ?val = "InObject (empty_input\<lparr>in_message := Some ''boom'',
                             in_stack := Some ''Error: boom\<newline>    at f (x.js:1:1)''\<rparr>)"
  let ?ev = "\<lparr>request_method = ''GET'', path = ''/'', response = new_WebEventResponse\<rparr>"
  let ?cfg = "\<lparr>debug = True\<rparr>"
  have e: "createError None ?val =
     \<lparr>message = ''boom'', statusCode = Num 500, fatal = False, unhandled = False,
      statusMessage = None, data = None,
      cause = Some (CauseInput (empty_input\<lparr>in_message := Some ''boom'',
                             in_stack := Some ''Error: boom\<newline>    at f (x.js:1:1)''\<rparr>)),
      stack = Some ''Error: boom\<newline>    at f (x.js:1:1)''\<rparr>"
    by (simp add: createError_def empty_input_def new_H3Error_def Let_def)
  from prepareErrorResponseBody_shape [of None ?val ?ev ?cfg] obtain props where
    p: "fst (prepareErrorResponseBody None ?val ?ev ?cfg) = BJson (JObject props) False"
      "map_of props ''stack'' =
         Some (JArray (map (\<lambda>l. JString (trim l)) (split_lines ''Error: boom\<newline>    at f (x.js:1:1)'')))"
    unfolding e by auto
  have "fst (prepareErrorResponseBody None ?val ?ev ?cfg) = 
     BJson (JObject [(''statusCode'', JNumber (Num 500)),
                     (''stack'', JArray (map JString (map trim (split_lines ''Error: boom\<newline>    at f (x.js:1:1)''))))])
       False"
    by (simp add: prepareErrorResponseBody_def e json_object_def List.map_filter_simps Let_def comp_def)
  then show ?thesis unfolding example_stack_lines using p by simp
qed

section \<open>Properties of handler composition\<close>

lemma defineEventHandler_trace_example:
  "defineEventHandler
     (HandlerObject
        \<lparr>onRequest = Some (Many [\<lambda>e w. Inr (w @ [''A'']), \<lambda>e w. Inr (w @ [''B''])]),
         onBeforeResponse = Some (Many [\<lambda>e b w. Inr (''x'', w @ [''X sees '' @ b]),
                                        \<lambda>e b w. Inr (b, w @ [''Y sees '' @ b])]),
         handler = (\<lambda>e w. Inr (''h'', w @ [''H'']))\<rparr>) () []
   = (Inr (''x'', [''A'', ''B'', ''H'', ''X sees h'', ''Y sees x'']) :: unit + string \<times> string list)"
  by (simp add: defineEventHandler_def callHandler_def)

text \<open>
  Claim C6. A handler composed from the pre-request hooks \<open>[A, B]\<close>, the terminal handler
  \<open>H\<close> and the pre-response hooks \<open>[X, Y]\<close> is the sequential composition of \<open>A\<close>,
  \<open>B\<close>, \<open>H\<close>, \<open>X\<close>, \<open>Y\<close>, in this order: each one starts in the world the one
  before it has left when it settled; \<open>X\<close> receives the event and the container holding
  the body \<open>H\<close> settled with, \<open>Y\<close> receives the container as \<open>X\<close> left it, and the
  result is the body in the container after \<open>Y\<close>. A failure ends the sequence and is the
  result of the call.
\<close>

theorem defineEventHandler_runs_in_order:
  "defineEventHandler
     (HandlerObject \<lparr>onRequest = Some (Many [A, B]), onBeforeResponse = Some (Many [X, Y]),
                     handler = H\<rparr>) event w =
   (case A event w of Inl x \<Rightarrow> Inl x | Inr w1 \<Rightarrow>
    (case B event w1 of Inl x \<Rightarrow> Inl x | Inr w2 \<Rightarrow>
     (case H event w2 of Inl x \<Rightarrow> Inl x | Inr (b0, w3) \<Rightarrow>
      (case X event b0 w3 of Inl x \<Rightarrow> Inl x | Inr (b1, w4) \<Rightarrow>
       (case Y event b1 w4 of Inl x \<Rightarrow> Inl x | Inr (b2, w5) \<Rightarrow> Inr (b2, w5))))))"
  by (simp add: defineEventHandler_def callHandler_def split: sum.splits prod.splits)

section \<open>Properties of the event stream\<close>

lemma formatEventStreamMessages_concat:
  "formatEventStreamMessages ms = concat (map formatEventStreamMessage ms)"
proof -
  have "foldl (\<lambda>result msg. result @ formatEventStreamMessage msg) acc ms
        = acc @ concat (map formatEventStreamMessage ms)" for acc
    by (induction ms arbitrary: acc) simp_all
  then show ?thesis by (simp add: formatEventStreamMessages_def)
qed

lemma formatEventStreamMessage_blank_line:
  "\<exists>p. formatEventStreamMessage m = p @ [CHR 0x0A, CHR 0x0A]"
  unfolding formatEventStreamMessage_def by (metis append.assoc)

lemma formatEventStreamMessage_nonempty: "formatEventStreamMessage m \<noteq> []"
  by (simp add: formatEventStreamMessage_def)

lemma push_closed: "writerIsClosed s \<Longrightarrow> push s m = s"
  by (cases m) (simp_all add: sendEvent_def sendEvents_def)

lemma sendPayload_paused:
  "paused s \<Longrightarrow> sendPayload s p = s\<lparr>unsentData := Some (buffered s @ p)\<rparr>"
  by (auto simp: sendPayload_def buffered_def truthy_text_def split: option.splits)

lemma push_paused:
  assumes "paused s" "\<not> writerIsClosed s"
  shows "push s m = (if messages_of m = [] then s
     else s\<lparr>unsentData := Some (buffered s @ concat (map formatEventStreamMessage (messages_of m)))\<rparr>)"
  using assms
  by (cases m) (auto simp: sendEvent_def sendEvents_def sendPayload_paused
      formatEventStreamMessages_concat)

lemma pushes_paused:
  assumes "paused s" "\<not> writerIsClosed s"
  shows "foldl push s ms = (if concat (map messages_of ms) = [] then s
     else s\<lparr>unsentData := Some (buffered s @
            concat (map formatEventStreamMessage (concat (map messages_of ms))))\<rparr>)"
  using assms
proof (induction ms arbitrary: s)
  case Nil
  then show ?case by simp
next
  case (Cons m ms)
  show ?case
  proof (cases "messages_of m = []")
    case True
    with Cons.prems have "push s m = s" by (simp add: push_paused)
    with Cons.IH [OF Cons.prems] True show ?thesis by simp
  next
    case False
    let ?s1 = "s\<lparr>unsentData := Some (buffered s @ concat (map formatEventStreamMessage (messages_of m)))\<rparr>"
    from False Cons.prems have p: "push s m = ?s1" by (simp add: push_paused)
    have "paused ?s1" "\<not> writerIsClosed ?s1" using Cons.prems by simp_all
    from Cons.IH [OF this] p False show ?thesis
      by (simp add: buffered_def)
  qed
qed


text \<open>
  Claim C7, as stated, fails on two kinds of paused stream. When the writer has errored
  (the peer is gone) the write made by \<open>resume\<close> is rejected and the pending buffer is
  kept, not emptied; when the writer is marked closed, a pushed message is dropped, not
  appended to the buffer.
\<close>

theorem paused_push_resume_counterexample:
  "unsentData (resume (push
      \<lparr>es_writer = \<lparr>w_state = Errored, w_writes = []\<rparr>, writerIsClosed = False,
        paused = True, unsentData = None, disposed = False, handled = False\<rparr>
      (PushString ''a''))) = Some (''data: a'' @ [CHR 0x0A, CHR 0x0A])
   \<and> unsentData (push
      \<lparr>es_writer = \<lparr>w_state = Closed, w_writes = []\<rparr>, writerIsClosed = True,
        paused = True, unsentData = None, disposed = False, handled = False\<rparr>
      (PushString ''a'')) = None"
  by (simp add: resume_def flush_def sendEvent_def sendPayload_def truthy_text_def
        formatEventStreamMessage_def data_message_def writer_write_def)

text \<open>
  Claim C7, amended. On a paused stream whose writer is not marked closed, pushing any
  number of messages performs no write and appends their serialized payloads, each ending
  with a blank line, in push order to the pending buffer. A subsequent \<open>resume\<close> clears
  the paused flag and, when the buffer is not empty, performs exactly one write, whose
  payload is the whole buffer; the buffer is empty afterwards when that write succeeds
  and is kept when it is rejected.
\<close>

theorem paused_push_resume:
  assumes "paused s" and "\<not> writerIsClosed s"
  shows "w_writes (es_writer (foldl push s ms)) = w_writes (es_writer s)
    \<and> paused (foldl push s ms)
    \<and> buffered (foldl push s ms) =
        buffered s @ concat (map formatEventStreamMessage (concat (map messages_of ms)))
    \<and> (\<forall>m. \<exists>p. formatEventStreamMessage m = p @ [CHR 0x0A, CHR 0x0A])
    \<and> \<not> paused (resume (foldl push s ms))
    \<and> w_writes (es_writer (resume (foldl push s ms))) =
        w_writes (es_writer s) @
        (if buffered (foldl push s ms) = [] then [] else [buffered (foldl push s ms)])
    \<and> buffered (resume (foldl push s ms)) =
        (if w_state (es_writer s) = Writable then [] else buffered (foldl push s ms))"
proof -
  let ?s1 = "foldl push s ms"
  note p = pushes_paused [OF assms, of ms]
  have frame: "es_writer ?s1 = es_writer s" "paused ?s1" "\<not> writerIsClosed ?s1"
    using assms by (simp_all add: p)
  have buf: "buffered ?s1 =
        buffered s @ concat (map formatEventStreamMessage (concat (map messages_of ms)))"
    by (simp add: p) (simp add: buffered_def)
  have res: "\<not> paused (resume ?s1)
    \<and> w_writes (es_writer (resume ?s1)) =
        w_writes (es_writer ?s1) @ (if buffered ?s1 = [] then [] else [buffered ?s1])
    \<and> buffered (resume ?s1) = (if w_state (es_writer ?s1) = Writable then [] else buffered ?s1)"
    using frame(3)
    by (auto simp: resume_def flush_def buffered_def writer_write_def Let_def
          split: option.splits)
  show ?thesis using frame buf res formatEventStreamMessage_blank_line by simp
qed

theorem paused_push_resume_witness:
  "w_writes (es_writer (resume (foldl push
      \<lparr>es_writer = \<lparr>w_state = Writable, w_writes = []\<rparr>, writerIsClosed = False,
        paused = True, unsentData = None, disposed = False, handled = False\<rparr>
      [PushString ''a'', PushString ''b'', PushString ''c'']))) =
     [''data: a'' @ [CHR 0x0A, CHR 0x0A] @ ''data: b'' @ [CHR 0x0A, CHR 0x0A]
        @ ''data: c'' @ [CHR 0x0A, CHR 0x0A]]
   \<and> buffered (resume (foldl push
      \<lparr>es_writer = \<lparr>w_state = Writable, w_writes = []\<rparr>, writerIsClosed = False,
        paused = True, unsentData = None, disposed = False, handled = False\<rparr>
      [PushString ''a'', PushString ''b'', PushString ''c''])) = []"
proof -
  let ?s = "\<lparr>es_writer = \<lparr>w_state = Writable, w_writes = []\<rparr>, writerIsClosed = False,
        paused = True, unsentData = None, disposed = False, handled = False\<rparr>"
  have 1: "paused ?s" by simp
  have 2: "\<not> writerIsClosed ?s" by simp
  from paused_push_resume [OF 1 2, of "[PushString ''a'', PushString ''b'', PushString ''c'']"]
  show ?thesis
    by (simp add: buffered_def formatEventStreamMessage_def data_message_def truthy_text_def)
qed


text \<open>
  Claim C10. Pushing an empty array returns at once: the stream, its writer included, is
  exactly as before, so no write is attempted and no flag or buffer changes.
\<close>

theorem push_empty_array_is_noop:
  "push s (PushStrings []) = s \<and> push s (PushMessages []) = s"
  by simp

section \<open>Properties of the pathname accessor\<close>

lemma index_of_first:
  "c0 \<notin> set a \<Longrightarrow> index_of (c0 # pat) (a @ (c0 # pat) @ b) = Some (length a)"
  by (induction a) auto

lemma index_of_absent: "c0 \<notin> set s \<Longrightarrow> index_of (c0 # pat) s = None"
  by (induction s) auto

lemma split_on_no_sep: "sep \<notin> set s \<Longrightarrow> split_on sep s = [s]"
  by (induction s) auto

lemma split_on_append_sep:
  "sep \<notin> set a \<Longrightarrow> split_on sep (a @ sep # b) = a # split_on sep b"
  by (induction a) auto

lemma serialize_path_snoc: "serialize_path (segs @ [seg]) = serialize_path segs @ CHR ''/'' # seg"
  by (simp add: serialize_path_def)

lemma path_safe_plain:
  assumes "path_safe special caret c" and "c \<noteq> CHR ''/''"
  shows "\<not> path_separator special c" "c \<noteq> CHR ''?''" "c \<noteq> CHR ''#''"
    "percent_encode_path caret c = [c]"
  using assms
  by (auto simp: path_safe_def path_separator_def percent_encode_path_def
        path_percent_encode_set_def char_code_def)

lemma normalized_drive_letter_kept:
  "normalized_windows_drive_letter b \<Longrightarrow> [hd b, CHR '':''] = b"
  by (auto simp: normalized_windows_drive_letter_def split: list.splits)

lemma takeWhile_whole: "x \<notin> set s \<Longrightarrow> takeWhile (\<lambda>c. c \<noteq> x) s = s"
  by (induction s) auto

lemma takeWhile_first_segment:
  "CHR ''/'' \<notin> set buf \<Longrightarrow> takeWhile (\<lambda>c. c \<noteq> CHR ''/'') (buf @ CHR ''/'' # p) = buf"
  by (induction buf) auto

lemma keeps_drive_letter_whole:
  "CHR ''/'' \<notin> set buf \<Longrightarrow>
   keeps_drive_letter buf = (windows_drive_letter buf \<longrightarrow> normalized_windows_drive_letter buf)"
  by (simp add: keeps_drive_letter_def takeWhile_whole)

lemma keeps_drive_letter_first:
  "CHR ''/'' \<notin> set buf \<Longrightarrow> keeps_drive_letter (buf @ CHR ''/'' # p) = keeps_drive_letter buf"
  by (simp add: keeps_drive_letter_def takeWhile_whole takeWhile_first_segment)

lemma end_segment_plain:
  assumes "\<not> single_dot_segment buf" and "\<not> double_dot_segment buf"
      and "file \<and> segs = [] \<longrightarrow> keeps_drive_letter buf"
      and "CHR ''/'' \<notin> set buf"
  shows "end_segment file segs buf slash = segs @ [buf]"
proof (cases "file \<and> segs = [] \<and> windows_drive_letter buf")
  case True
  from True assms(3,4) have "normalized_windows_drive_letter buf"
    by (simp add: keeps_drive_letter_whole)
  from normalized_drive_letter_kept [OF this] True assms(1,2) show ?thesis
    by (simp add: end_segment_def)
next
  case False
  with assms(1,2) show ?thesis by (auto simp: end_segment_def)
qed

lemma path_state_clean:
  "list_all (path_safe special caret) p \<Longrightarrow> CHR ''/'' \<notin> set buf \<Longrightarrow>
   list_all (\<lambda>seg. \<not> single_dot_segment seg \<and> \<not> double_dot_segment seg)
     (split_on (CHR ''/'') (buf @ p)) \<Longrightarrow>
   file \<and> segs = [] \<longrightarrow> keeps_drive_letter (buf @ p) \<Longrightarrow>
   q = [] \<or> hd q = CHR ''?'' \<Longrightarrow>
   serialize_path (path_state special file caret (p @ q) segs buf)
     = serialize_path segs @ CHR ''/'' # buf @ p"
proof (induction p arbitrary: segs buf)
  case Nil
  then have nd: "\<not> single_dot_segment buf" "\<not> double_dot_segment buf"
    by (simp_all add: split_on_no_sep)
  from Nil.prems(4) have k: "file \<and> segs = [] \<longrightarrow> keeps_drive_letter buf" by simp
  from Nil.prems(5) have "path_state special file caret q segs buf = end_segment file segs buf False"
    by (cases q) (auto simp: path_separator_def)
  with end_segment_plain [OF nd k Nil.prems(2)] show ?case by (simp add: serialize_path_snoc)
next
  case (Cons c p)
  show ?case
  proof (cases "c = CHR ''/''")
    case True
    from Cons.prems(2,3) have nd: "\<not> single_dot_segment buf" "\<not> double_dot_segment buf"
      and rest: "list_all (\<lambda>seg. \<not> single_dot_segment seg \<and> \<not> double_dot_segment seg)
                   (split_on (CHR ''/'') ([] @ p))"
      by (simp_all add: True split_on_append_sep)
    from Cons.prems(4) have k: "file \<and> segs = [] \<longrightarrow> keeps_drive_letter buf"
      by (simp add: True keeps_drive_letter_first [OF Cons.prems(2)])
    have es: "end_segment file segs buf True = segs @ [buf]"
      by (rule end_segment_plain [OF nd k Cons.prems(2)])
    from Cons.prems(1) have "list_all (path_safe special caret) p" by simp
    from Cons.IH [OF this _ rest _ Cons.prems(5), of "segs @ [buf]"] show ?thesis
      by (simp add: True path_separator_def es serialize_path_snoc)
  next
    case False
    from Cons.prems(1) have c: "path_safe special caret c"
      and p: "list_all (path_safe special caret) p" by simp_all
    have 1: "CHR ''/'' \<notin> set (buf @ [c])" using Cons.prems(2) False by simp
    have 2: "list_all (\<lambda>seg. \<not> single_dot_segment seg \<and> \<not> double_dot_segment seg)
               (split_on (CHR ''/'') ((buf @ [c]) @ p))"
      using Cons.prems(3) by simp
    have 3: "file \<and> segs = [] \<longrightarrow> keeps_drive_letter ((buf @ [c]) @ p)"
      using Cons.prems(4) by simp
    from Cons.IH [OF p 1 2 3 Cons.prems(5)] path_safe_plain [OF c False]
    show ?thesis by simp
  qed
qed

lemma parsed_path_clean:
  assumes "list_all (path_safe special (encodes_caret P)) p" and "no_dot_segments p"
      and "file \<longrightarrow> keeps_drive_letter p" and "q = [] \<or> hd q = CHR ''?''"
  shows "parsed_path P special file (p @ q) [] = CHR ''/'' # p"
proof -
  have "serialize_path (path_state special file (encodes_caret P) (p @ q) [] [])
        = serialize_path [] @ CHR ''/'' # [] @ p"
    using assms(1) _ _ _ assms(4)
    by (rule path_state_clean) (use assms(2,3) in \<open>simp_all add: no_dot_segments_def\<close>)
  then show ?thesis by (simp add: parsed_path_def serialize_path_def)
qed

lemma valid_scheme_chars:
  assumes "valid_scheme scheme"
  shows "\<forall>c\<in>set scheme. scheme_char c" and "\<exists>c cs. scheme = c # cs \<and> ascii_alpha c"
  using assms by (auto simp: valid_scheme_def list_all_iff split: list.splits)

lemma scheme_char_facts:
  "scheme_char c \<Longrightarrow> c \<noteq> CHR '':'' \<and> \<not> ascii_tab_or_newline c \<and> \<not> c0_control_or_space c"
  by (auto simp: scheme_char_def ascii_alphanumeric_def ascii_alpha_def is_digit_def
        ascii_tab_or_newline_def c0_control_or_space_def char_code_def)

lemma parse_scheme_valid:
  assumes "valid_scheme scheme"
  shows "parse_scheme (scheme @ CHR '':'' # rest) = Some (lower scheme, rest)"
proof -
  from valid_scheme_chars [OF assms] obtain c cs where s: "scheme = c # cs"
    and a: "ascii_alpha c" and sc: "\<forall>x\<in>set scheme. scheme_char x" by auto
  have nc: "\<not> scheme_char (CHR '':'')" using scheme_char_facts by blast
  have d: "dropWhile scheme_char (scheme @ CHR '':'' # rest) = CHR '':'' # rest"
    using sc nc by (simp add: dropWhile_append3)
  have t: "takeWhile scheme_char (scheme @ CHR '':'' # rest) = scheme"
    using sc nc by (simp add: takeWhile_append2)
  have h: "scheme @ CHR '':'' # rest = c # (cs @ CHR '':'' # rest)" by (simp add: s)
  have "parse_scheme (scheme @ CHR '':'' # rest)
        = Some (lower (takeWhile scheme_char (scheme @ CHR '':'' # rest)), rest)"
    unfolding parse_scheme_def d unfolding h using a by simp
  then show ?thesis by (simp only: t)
qed

lemma dropWhile_append_keep:
  "ys \<noteq> [] \<Longrightarrow> \<not> P (hd ys) \<Longrightarrow> dropWhile P (xs @ ys) = dropWhile P xs @ ys"
  by (induction xs) (auto simp: dropWhile_eq_self_iff)

lemma filter_id: "\<forall>c\<in>set s. P c \<Longrightarrow> filter P s = s"
  by (induction s) auto

lemma url_preprocess_shape:
  assumes vs: "valid_scheme scheme"
      and w: "\<forall>c\<in>set w. c0_control_or_space c"
      and vis: "\<forall>c\<in>set p. 32 < char_code c"
      and q: "q = [] \<or> hd q = CHR ''?''"
  shows "\<exists>q'. (q' = [] \<or> hd q' = CHR ''?'')
           \<and> url_preprocess (w @ scheme @ ''://'' @ authority @ CHR ''/'' # p @ q)
             = scheme @ ''://'' @ filter (\<lambda>c. \<not> ascii_tab_or_newline c) authority
                 @ CHR ''/'' # p @ q'"
proof -
  let ?nt = "\<lambda>c. \<not> ascii_tab_or_newline c"
  define b where "b = scheme @ ''://'' @ authority @ CHR ''/'' # p"
  define q1 where "q1 = rev (dropWhile c0_control_or_space (rev q))"
  from valid_scheme_chars [OF vs] obtain c cs where s: "scheme = c # cs"
    and sc: "\<forall>x\<in>set scheme. scheme_char x" by auto
  then have "\<not> c0_control_or_space c" using scheme_char_facts by auto
  then have "dropWhile c0_control_or_space (b @ q) = b @ q" by (simp add: b_def s)
  with w have lead: "dropWhile c0_control_or_space (w @ b @ q) = b @ q"
    by (simp add: dropWhile_append2)
  have slash: "\<not> c0_control_or_space (CHR ''/'')" "?nt (CHR ''/'')" "?nt (CHR '':'')"
    "\<not> c0_control_or_space (CHR ''?'')" "?nt (CHR ''?'')"
    by (simp_all add: c0_control_or_space_def ascii_tab_or_newline_def char_code_def)
  have pv: "\<forall>c\<in>set p. \<not> c0_control_or_space c \<and> ?nt c"
    using vis by (auto simp: c0_control_or_space_def ascii_tab_or_newline_def)
  have "\<not> c0_control_or_space (last (CHR ''/'' # p))" using pv slash(1) by simp
  moreover have "last b = last (CHR ''/'' # p)" by (simp add: b_def)
  moreover have "b \<noteq> []" by (simp add: b_def)
  ultimately have "rev b \<noteq> []" "\<not> c0_control_or_space (hd (rev b))"
    by (simp_all only: hd_rev rev_is_Nil_conv not_False_eq_True)
  then have "dropWhile c0_control_or_space (rev q @ rev b)
             = dropWhile c0_control_or_space (rev q) @ rev b"
    by (rule dropWhile_append_keep)
  then have strip: "rev (dropWhile c0_control_or_space (rev (b @ q))) = b @ q1"
    by (simp add: q1_def)
  have fs: "filter ?nt scheme = scheme" using sc scheme_char_facts by (intro filter_id) blast
  have fp: "filter ?nt p = p" using pv by (intro filter_id) blast
  have fb: "filter ?nt b = scheme @ ''://'' @ filter ?nt authority @ CHR ''/'' # p"
    using slash by (simp add: b_def fs fp)
  have q': "filter ?nt q1 = [] \<or> hd (filter ?nt q1) = CHR ''?''"
  proof (cases q)
    case Nil
    then show ?thesis by (simp add: q1_def)
  next
    case (Cons d t)
    with q have qq: "q = CHR ''?'' # t" by simp
    have "dropWhile c0_control_or_space (rev t @ [CHR ''?''])
          = dropWhile c0_control_or_space (rev t) @ [CHR ''?'']"
      by (rule dropWhile_append_keep) (simp_all add: slash)
    then have "q1 = CHR ''?'' # rev (dropWhile c0_control_or_space (rev t))"
      by (simp add: q1_def qq)
    then show ?thesis using slash by simp
  qed
  have "url_preprocess (w @ b @ q) = filter ?nt b @ filter ?nt q1"
    unfolding url_preprocess_def lead strip by simp
  with fb q' show ?thesis unfolding b_def by (intro exI [of _ "filter ?nt q1"]) simp
qed

lemma authority_takeWhile:
  assumes "\<forall>c\<in>set a. \<not> authority_end special c"
  shows "takeWhile (\<lambda>c. \<not> authority_end special c) (a @ CHR ''/'' # r) = a"
    and "dropWhile (\<lambda>c. \<not> authority_end special c) (a @ CHR ''/'' # r) = CHR ''/'' # r"
  using assms
  by (simp_all add: takeWhile_append2 dropWhile_append3 authority_end_def path_separator_def)

lemma authority_parses_special_nonempty: "authority_parses P True a \<Longrightarrow> a \<noteq> []"
  by (auto simp: authority_parses_def after_last_at_def)

lemma file_is_special: "lower scheme = ''file'' \<Longrightarrow> is_special scheme"
  by (simp add: is_special_def special_schemes_def)

lemma whatwg_pathname_rest:
  assumes aend: "\<forall>c\<in>set a. \<not> authority_end (is_special scheme) c"
      and acc: "authority_accepted P scheme a"
      and safe: "list_all (path_safe (is_special scheme) (encodes_caret P)) p"
      and nodot: "no_dot_segments p"
      and keep: "lower scheme = ''file'' \<longrightarrow> keeps_drive_letter p"
      and q: "q = [] \<or> hd q = CHR ''?''"
  shows "(if lower scheme = ''file'' then file_pathname P (''//'' @ a @ CHR ''/'' # p @ q)
          else if lower scheme \<in> set special_schemes
          then special_pathname P (''//'' @ a @ CHR ''/'' # p @ q)
          else nonspecial_pathname P (''//'' @ a @ CHR ''/'' # p @ q))
         = Returns (CHR ''/'' # p)"
proof (cases "lower scheme = ''file''")
  case True
  then have sp: "is_special scheme" by (rule file_is_special)
  from acc True have nd: "\<not> windows_drive_letter a" and h: "a = [] \<or> host_parses P False a"
    by (simp_all add: authority_accepted_def)
  from aend sp have ae: "\<forall>c\<in>set a. \<not> authority_end True c" by simp
  note tk = authority_takeWhile [OF ae, of "p @ q"]
  have pp: "parsed_path P True True (p @ q) [] = CHR ''/'' # p"
    using safe nodot keep q sp True by (intro parsed_path_clean) simp_all
  show ?thesis
    using nd h
    by (simp add: True file_pathname_def slash_or_backslash_def tk path_start_def pp Let_def)
next
  case nofile: False
  show ?thesis
  proof (cases "lower scheme \<in> set special_schemes")
    case True
    then have sp: "is_special scheme" by (simp add: is_special_def)
    from acc nofile sp have ap: "authority_parses P True a" by (simp add: authority_accepted_def)
    from aend sp have ae: "\<forall>c\<in>set a. \<not> authority_end True c" by simp
    from authority_parses_special_nonempty [OF ap] obtain a0 as where a: "a = a0 # as"
      by (cases a) auto
    with ae have "\<not> slash_or_backslash a0"
      by (auto simp: authority_end_def path_separator_def slash_or_backslash_def)
    then have r: "dropWhile slash_or_backslash (''//'' @ a @ CHR ''/'' # p @ q)
                  = a @ CHR ''/'' # p @ q"
      by (simp add: a slash_or_backslash_def)
    note tk = authority_takeWhile [OF ae, of "p @ q"]
    have pp: "parsed_path P True False (p @ q) [] = CHR ''/'' # p"
      using safe nodot _ q sp by (intro parsed_path_clean) simp_all
    have "special_pathname P (''//'' @ a @ CHR ''/'' # p @ q) = Returns (CHR ''/'' # p)"
      unfolding special_pathname_def r
      by (simp add: tk ap path_start_def slash_or_backslash_def pp Let_def)
    with nofile True show ?thesis by simp
  next
    case False
    then have sp: "\<not> is_special scheme" by (simp add: is_special_def)
    from acc nofile sp have ap: "authority_parses P False a" by (simp add: authority_accepted_def)
    from aend sp have ae: "\<forall>c\<in>set a. \<not> authority_end False c" by simp
    note tk = authority_takeWhile [OF ae, of "p @ q"]
    have pp: "parsed_path P False False (p @ q) [] = CHR ''/'' # p"
      using safe nodot _ q sp by (intro parsed_path_clean) simp_all
    have "nonspecial_pathname P (''//'' @ a @ CHR ''/'' # p @ q) = Returns (CHR ''/'' # p)"
      by (simp add: nonspecial_pathname_def tk ap pp Let_def)
    with nofile False show ?thesis by simp
  qed
qed

lemma indexOf_at:
  "n \<le> length s \<Longrightarrow> drop n s = r \<Longrightarrow>
   indexOf s pat n = (case index_of pat r of None \<Rightarrow> - 1 | Some k \<Rightarrow> int (n + k))"
  by (simp add: indexOf_def min_def)

lemma pathname_fast_shape:
  assumes "CHR '':'' \<notin> set scheme" and "authority \<noteq> []" and "CHR ''/'' \<notin> set authority"
      and "CHR ''?'' \<notin> set p" and "q = [] \<or> hd q = CHR ''?''"
  shows "map_option fst (pathname_fast (scheme @ ''://'' @ authority @ CHR ''/'' # p @ q))
         = Some (CHR ''/'' # p)"
proof -
  define url where "url = scheme @ ''://'' @ authority @ CHR ''/'' # p @ q"
  obtain a0 auth where a: "authority = a0 # auth" using assms(2) by (cases authority) auto
  let ?pi = "length scheme + 4 + length auth"
  have len: "length url = ?pi + 1 + length p + length q" by (simp add: url_def a)
  have "index_of ''://'' url = Some (length scheme)"
    using index_of_first [OF assms(1), of "''//''" "authority @ CHR ''/'' # p @ q"]
    by (simp add: url_def)
  with indexOf_at [of 0 url url "''://''"]
  have proto: "indexOf url ''://'' 0 = int (length scheme)" by simp
  have "url = (scheme @ ''://'' @ [a0]) @ (auth @ CHR ''/'' # p @ q)" by (simp add: url_def a)
  moreover have "length (scheme @ ''://'' @ [a0]) = length scheme + 4" by simp
  ultimately have dp: "drop (length scheme + 4) url = auth @ CHR ''/'' # p @ q"
    by (metis append_eq_conv_conj)
  have "CHR ''/'' \<notin> set auth" using assms(3) a by simp
  from index_of_first [OF this, of "[]" "p @ q"]
  have "index_of ''/'' (auth @ CHR ''/'' # p @ q) = Some (length auth)" by simp
  with indexOf_at [OF _ dp, of "''/''"] len
  have pidx: "indexOf url ''/'' (length scheme + 4) = int ?pi" by simp
  have "url = (scheme @ ''://'' @ a0 # auth) @ (CHR ''/'' # p @ q)" by (simp add: url_def a)
  moreover have "length (scheme @ ''://'' @ a0 # auth) = ?pi" by simp
  ultimately have dq: "drop ?pi url = CHR ''/'' # p @ q" by (metis append_eq_conv_conj)
  have nq: "CHR ''?'' \<notin> set (CHR ''/'' # p)" using assms(4) by simp
  have fast: "pathname_fast url =
     (let qIndex = indexOf url ''?'' ?pi
      in Some (slice url ?pi (if qIndex = - 1 then None else Some (nat qIndex)), qIndex))"
    using proto pidx by (simp add: pathname_fast_def Let_def nat_add_distrib)
  have "map_option fst (pathname_fast url) = Some (CHR ''/'' # p)"
  proof (cases q)
    case Nil
    with nq have "CHR ''?'' \<notin> set (CHR ''/'' # p @ q)" by simp
    then have "index_of ''?'' (CHR ''/'' # p @ q) = None" by (rule index_of_absent)
    with indexOf_at [OF _ dq, of "''?''"] len have "indexOf url ''?'' ?pi = - 1" by simp
    with dq Nil show ?thesis by (simp add: fast slice_def)
  next
    case (Cons c q')
    with assms(5) have q: "q = CHR ''?'' # q'" by simp
    from index_of_first [OF nq, of "[]" q']
    have "index_of ''?'' (CHR ''/'' # p @ q) = Some (Suc (length p))" by (simp add: q)
    with indexOf_at [OF _ dq, of "''?''"] len
    have qi: "indexOf url ''?'' ?pi = int (?pi + Suc (length p))" by simp
    then have 1: "indexOf url ''?'' ?pi \<noteq> - 1" by linarith
    from qi have "nat (indexOf url ''?'' ?pi) = ?pi + Suc (length p)" by (simp only: nat_int)
    then have 2: "nat (indexOf url ''?'' ?pi) - ?pi = Suc (length p)" by arith
    have "slice url ?pi (Some (nat (indexOf url ''?'' ?pi))) = CHR ''/'' # p"
      unfolding slice_def option.case 2 dq by simp
    with 1 show ?thesis by (simp add: fast Let_def)
  qed
  then show ?thesis by (simp add: url_def)
qed

text \<open>
  Claim C1, as stated, fails: on an absolute URL the fast path returns the raw text
  between the first slash found from the second character after \<open>://\<close> on and the next
  \<open>?\<close>, while the URL parser normalizes the URL or rejects it. The fast path and the
  parser (on a platform that accepts the host \<open>example.com\<close>) differ
  \<^item> on a dot segment: \<open>/a/../b\<close> against \<open>/b\<close>;
  \<^item> on a fragment: \<open>/a#b\<close> against \<open>/a\<close>;
  \<^item> on a character of the path percent-encode set: \<open>/a b\<close> against \<open>/a%20b\<close>;
  \<^item> on a query that follows the host directly: \<open>/b\<close> against \<open>/\<close>;
  \<^item> on a port that is not a number, and on a scheme that is not well formed: the
    parser throws;
  \<^item> on a \<open>file\<close> URL without a host: \<open>/b\<close> against \<open>/a/b\<close>;
  \<^item> on a \<open>file\<close> URL with a drive letter as host, \<open>/x\<close> against \<open>/C:/x\<close>, or with a
    drive letter written with \<open>|\<close> as the first segment, \<open>/C|/x\<close> against \<open>/C:/x\<close>.
\<close>

theorem pathname_fast_counterexample:
  "map_option fst (pathname_fast ''http://example.com/a/../b'') = Some ''/a/../b''
   \<and> whatwg_pathname example_platform ''http://example.com/a/../b'' = Returns ''/b''
   \<and> map_option fst (pathname_fast ''http://example.com/a#b'') = Some ''/a#b''
   \<and> whatwg_pathname example_platform ''http://example.com/a#b'' = Returns ''/a''
   \<and> map_option fst (pathname_fast ''http://example.com/a b'') = Some ''/a b''
   \<and> whatwg_pathname example_platform ''http://example.com/a b'' = Returns ''/a%20b''
   \<and> map_option fst (pathname_fast ''http://example.com?a=/b'') = Some ''/b''
   \<and> whatwg_pathname example_platform ''http://example.com?a=/b'' = Returns ''/''
   \<and> map_option fst (pathname_fast ''http://example.com:x/y'') = Some ''/y''
   \<and> whatwg_pathname example_platform ''http://example.com:x/y'' = Throws
   \<and> map_option fst (pathname_fast ''1ttp://example.com/y'') = Some ''/y''
   \<and> whatwg_pathname example_platform ''1ttp://example.com/y'' = Throws
   \<and> map_option fst (pathname_fast ''file:///a/b'') = Some ''/b''
   \<and> whatwg_pathname example_platform ''file:///a/b'' = Returns ''/a/b''
   \<and> map_option fst (pathname_fast ''file://C:/x'') = Some ''/x''
   \<and> whatwg_pathname example_platform ''file://C:/x'' = Returns ''/C:/x''
   \<and> map_option fst (pathname_fast ''file://example.com/C|/x'') = Some ''/C|/x''
   \<and> whatwg_pathname example_platform ''file://example.com/C|/x'' = Returns ''/C:/x''"
  by code_simp

text \<open>
  Claim C1, amended. Take a URL string of the form \<open>scheme://authority/path\<close>,
  optionally preceded by C0 control characters and spaces and optionally followed by
  \<open>?\<close> and anything, such that
  \<^item> the scheme is well formed (a letter, then letters, digits, \<open>+\<close>, \<open>-\<close>, \<open>.\<close>);
  \<^item> the authority is not empty, contains none of \<open>/\<close>, \<open>?\<close>, \<open>#\<close> (nor a backslash
    when the scheme is special) and, with its tabs and newlines removed, passes the
    parser's authority, host and port states on the platform at hand (for \<open>file\<close>: is
    empty or a host that the host parser accepts, and is not a drive letter);
  \<^item> the path is in the parser's normal form: visible ASCII characters outside the
    platform's path percent-encode set (and no backslash when the scheme is special), no
    dot segment, and for \<open>file\<close> no drive letter written with \<open>|\<close> as first segment.

  Then the fast path does not fall back and returns \<open>/path\<close>, which is the pathname of the
  URL parse, and it is what the pathname getter of a fresh event returns.
\<close>

theorem pathname_fast_agrees_on_normalized_urls:
  assumes "url = w @ scheme @ ''://'' @ authority @ CHR ''/'' # p @ q"
      and "list_all c0_control_or_space w"
      and "valid_scheme scheme"
      and "authority \<noteq> []"
      and "list_all (\<lambda>c. \<not> authority_end (is_special scheme) c) authority"
      and "authority_accepted P scheme (filter (\<lambda>c. \<not> ascii_tab_or_newline c) authority)"
      and "list_all (path_safe (is_special scheme) (encodes_caret P)) p"
      and "no_dot_segments p"
      and "lower scheme = ''file'' \<longrightarrow> keeps_drive_letter p"
      and "q = [] \<or> hd q = CHR ''?''"
  shows "map_option fst (pathname_fast url) = Some (CHR ''/'' # p)
    \<and> whatwg_pathname P url = Returns (CHR ''/'' # p)
    \<and> (\<exists>ev'. get_pathname new_URL
                 \<lparr>request_url = url, cached_url = None, cached_pathname = None,
                  cached_urlqindex = None\<rparr>
               = Inr (CHR ''/'' # p, ev'))"
proof -
  let ?a = "filter (\<lambda>c. \<not> ascii_tab_or_newline c) authority"
  have url': "url = (w @ scheme) @ ''://'' @ authority @ CHR ''/'' # p @ q"
    by (simp add: assms(1))
  from assms(2) have wc: "\<forall>c\<in>set w. c0_control_or_space c" by (simp add: list_all_iff)
  then have "CHR '':'' \<notin> set w" by (auto simp: c0_control_or_space_def char_code_def)
  with valid_scheme_chars(1) [OF assms(3)] scheme_char_facts
  have 1: "CHR '':'' \<notin> set (w @ scheme)" by auto
  from assms(5) have 3: "CHR ''/'' \<notin> set authority"
    by (auto simp: list_all_iff authority_end_def path_separator_def)
  from assms(7) have 4: "CHR ''?'' \<notin> set p"
    by (auto simp: list_all_iff path_safe_def path_percent_encode_set_def char_code_def)
  have fast: "map_option fst (pathname_fast url) = Some (CHR ''/'' # p)"
    unfolding url' by (rule pathname_fast_shape [OF 1 assms(4) 3 4 assms(10)])
  then obtain qi where f: "pathname_fast url = Some (CHR ''/'' # p, qi)" by auto
  have get: "\<exists>ev'. get_pathname new_URL
                 \<lparr>request_url = url, cached_url = None, cached_pathname = None,
                  cached_urlqindex = None\<rparr> = Inr (CHR ''/'' # p, ev')"
    by (simp add: get_pathname_def truthy_text_def f)
  from assms(7) have vis: "\<forall>c\<in>set p. 32 < char_code c"
    by (auto simp: list_all_iff path_safe_def)
  from url_preprocess_shape [OF assms(3) wc vis assms(10), of authority] obtain q' where
    q': "q' = [] \<or> hd q' = CHR ''?''"
    and pre: "url_preprocess url = scheme @ CHR '':'' # (''//'' @ ?a @ CHR ''/'' # p @ q')"
    by (auto simp: assms(1))
  from assms(5) have aend: "\<forall>c\<in>set ?a. \<not> authority_end (is_special scheme) c"
    by (simp add: list_all_iff)
  have "whatwg_pathname P url = Returns (CHR ''/'' # p)"
    unfolding whatwg_pathname_def pre parse_scheme_valid [OF assms(3)]
    by (simp only: option.case prod.case whatwg_pathname_rest [OF aend assms(6,7,8,9) q'])
  with fast get show ?thesis by blast
qed

theorem pathname_fast_agrees_on_normalized_urls_witness:
  "map_option fst (pathname_fast ''http://127.0.0.1:3000/api/users?id=1'') = Some ''/api/users''
   \<and> whatwg_pathname example_platform ''http://127.0.0.1:3000/api/users?id=1''
       = Returns ''/api/users''"
proof -
  have 1: "''http://127.0.0.1:3000/api/users?id=1''
             = [] @ ''http'' @ ''://'' @ ''127.0.0.1:3000'' @ CHR ''/'' # ''api/users'' @ ''?id=1''"
    by simp
  have 2: "list_all c0_control_or_space []" by simp
  have 3: "valid_scheme ''http''" by code_simp
  have 4: "''127.0.0.1:3000'' \<noteq> []" by simp
  have 5: "list_all (\<lambda>c. \<not> authority_end (is_special ''http'') c) ''127.0.0.1:3000''"
    by code_simp
  have 6: "authority_accepted example_platform ''http''
             (filter (\<lambda>c. \<not> ascii_tab_or_newline c) ''127.0.0.1:3000'')"
    by code_simp
  have 7: "list_all (path_safe (is_special ''http'') (encodes_caret example_platform)) ''api/users''"
    by code_simp
  have 8: "no_dot_segments ''api/users''" by code_simp
  have 9: "lower ''http'' = ''file'' \<longrightarrow> keeps_drive_letter ''api/users''" by code_simp
  have 10: "''?id=1'' = [] \<or> hd ''?id=1'' = CHR ''?''" by simp
  from pathname_fast_agrees_on_normalized_urls
         [OF 1 2 3 4 5 6 7 8 9 10, where new_URL = "\<lambda>s. Inl ()"]
  show ?thesis by blast
qed

end
